theory Spec2Isabelle
  imports Main "HOL-Library.Mapping"
begin

section \<open>Data model: the Kubernetes objects that \<open>src/main.ts\<close> reads and writes\<close>

text \<open>
  Every field of the client library's object types is optional in TypeScript
  (\<open>metadata?\<close>, \<open>spec?\<close>, ...), so every field is an \<open>option\<close> here and \<open>None\<close> is
  JavaScript's \<open>undefined\<close>.  A JavaScript object used as a dictionary
  (\<open>labels\<close>, \<open>annotations\<close>) is a \<open>mapping\<close>: its keys are unique.  Nested objects the
  program only copies (\<open>resources\<close>, \<open>selector\<close>, \<open>status\<close>, ...) are kept as opaque
  \<open>json\<close> text.
\<close>

type_synonym json = string

record V1ObjectMeta =
  name :: "string option"
  namespace :: "string option"
  uid :: "string option"
  labels :: "(string, string) mapping option"
  annotations :: "(string, string) mapping option"

record V1PersistentVolumeClaimSpec =
  accessModes :: "string list option"
  dataSource :: "json option"
  dataSourceRef :: "json option"
  resources :: "json option"
  selector :: "json option"
  storageClassName :: "string option"
  volumeMode :: "string option"
  volumeName :: "string option"

record V1PersistentVolumeClaim =
  pvc_apiVersion :: "string option"
  pvc_kind :: "string option"
  pvc_metadata :: "V1ObjectMeta option"
  pvc_spec :: "V1PersistentVolumeClaimSpec option"
  pvc_status :: "json option"

record V1ObjectReference =
  ref_uid :: "string option"

record V1PersistentVolumeSpec =
  claimRef :: "V1ObjectReference option"

record V1PersistentVolumeStatus =
  phase :: "string option"

record V1PersistentVolume =
  pv_metadata :: "V1ObjectMeta option"
  pv_spec :: "V1PersistentVolumeSpec option"
  pv_status :: "V1PersistentVolumeStatus option"

record V1PersistentVolumeClaimVolumeSource =
  claimName :: "string option"

record V1Volume =
  vol_name :: string
  persistentVolumeClaim :: "V1PersistentVolumeClaimVolumeSource option"

record V1PodSpec =
  volumes :: "V1Volume list option"

record V1Pod =
  pod_metadata :: "V1ObjectMeta option"
  pod_spec :: "V1PodSpec option"

record V1JobStatus =
  failed :: "int option"
  succeeded :: "int option"

record V1Job =
  job_status :: "V1JobStatus option"

text \<open>The body of the copy job that step 5 posts (the object literal of lines 193-218).\<close>

record V1Container =
  container_name :: string
  image :: string
  args :: "string list"
  volumeMounts :: "(string \<times> string) list"

record V1JobBody =
  job_name :: string
  backoffLimit :: int
  restartPolicy :: string
  containers :: "V1Container list"
  job_volumes :: "V1Volume list"

text \<open>One operation of a JSON patch (\<open>op\<close>, \<open>path\<close>, \<open>value\<close>).\<close>

datatype patch_op = Replace string string | Remove string

section \<open>Errors, outcomes, events\<close>

text \<open>
  What a rejected promise carries.  \<open>HttpError\<close> is \<open>k8s.HttpError\<close> with its optional
  \<open>statusCode\<close> and its body; \<open>TypeError\<close> is what the JavaScript runtime throws (here:
  \<open>Object.entries(undefined)\<close>); \<open>OtherError\<close> is any other fault (a transport failure).
\<close>

datatype error = HttpError (statusCode: "int option") (body: json) | TypeError | OtherError string

text \<open>
  An awaited call returns, throws, or has not returned yet when the fuel of the polling
  loops runs out (\<open>OutOfFuel\<close>: the state reached so far is kept).
\<close>

datatype 'a outcome = Returned 'a | Thrown error | OutOfFuel

text \<open>The requests the program sends through \<open>CoreV1Api\<close> and \<open>BatchV1Api\<close>.\<close>

datatype call =
    ReadNamespacedPersistentVolumeClaim "string option" "string option"
  | ListPersistentVolume
  | ListNamespacedPod string
  | PatchPersistentVolume "string option" "patch_op list"
  | DeleteNamespacedPersistentVolumeClaim "string option" "string option"
  | CreateNamespacedPersistentVolumeClaim "string option" V1PersistentVolumeClaim
  | CreateNamespacedJob "string option" V1JobBody
  | ReadNamespacedJobStatus string "string option"

text \<open>
  The texts written with \<open>output\<close>, one constructor per template literal of the source
  (the styling getters \<open>.blue\<close>, \<open>.green\<close>, \<open>.red\<close>, \<open>.underline\<close> only wrap a text in
  terminal escapes and are left out).  Step numbers are the printed ones, \<open>i + 1\<close>.
  \<open>StepFailed k b\<close> is \<open>Step k failed<detail>. Quitting.\<close>: the detail \<open>b\<close> is the JSON
  body of an \<open>HttpError\<close> and is absent both when the action returned \<open>false\<close> and when it
  threw anything else (the two texts are the same string).
\<close>

datatype message =
    GatheringInfo
  | Done
  | Newline
  | HeresWhatWeFound
  | Found "string option" "string option" "string option list"
  | IfYouApprove
  | PlanLine nat string
  | ReadyToRun nat string
  | StepSuccessful nat
  | StepFailed nat "json option"
  | WaitingDeletion "string option list"
  | WaitingJob string
  | Finished

text \<open>
  What the run does to the outside, in program order.  \<open>Call c e\<close> is a request with the
  error it was answered with, if any; \<open>Input p a\<close> is a prompt \<open>p\<close> answered with \<open>a\<close>;
  \<open>Sleep ms\<close> is the awaited \<open>setTimeout\<close>.  \<open>Invoke i\<close> marks the call \<open>step.run()\<close> of
  the step with index \<open>i\<close>; it is an observation point of the model, not an effect.
\<close>

datatype event =
    Out message
  | Input string string
  | Call call "error option"
  | ClearLine nat
  | CursorTo nat
  | Sleep nat
  | Invoke nat

section \<open>The environment: cluster API and operator\<close>

text \<open>
  The cluster and the operator are an arbitrary state \<open>'w\<close> with one transition per
  request kind: each takes the request's arguments and the world, and gives the answer
  and the next world.  A request is answered with a body or with an error; the prompt
  \<open>rl.questionAsync\<close> is answered with the line the operator types.
\<close>

record 'w client =
  readNamespacedPersistentVolumeClaim ::
    "string option \<Rightarrow> string option \<Rightarrow> 'w \<Rightarrow> (error + V1PersistentVolumeClaim) \<times> 'w"
  listPersistentVolume :: "'w \<Rightarrow> (error + V1PersistentVolume list) \<times> 'w"
  listNamespacedPod :: "string \<Rightarrow> 'w \<Rightarrow> (error + V1Pod list) \<times> 'w"
  patchPersistentVolume :: "string option \<Rightarrow> patch_op list \<Rightarrow> 'w \<Rightarrow> (error + unit) \<times> 'w"
  deleteNamespacedPersistentVolumeClaim ::
    "string option \<Rightarrow> string option \<Rightarrow> 'w \<Rightarrow> (error + unit) \<times> 'w"
  createNamespacedPersistentVolumeClaim ::
    "string option \<Rightarrow> V1PersistentVolumeClaim \<Rightarrow> 'w \<Rightarrow> (error + unit) \<times> 'w"
  createNamespacedJob :: "string option \<Rightarrow> V1JobBody \<Rightarrow> 'w \<Rightarrow> (error + unit) \<times> 'w"
  readNamespacedJobStatus :: "string \<Rightarrow> string option \<Rightarrow> 'w \<Rightarrow> (error + V1Job) \<times> 'w"
  questionAsync :: "string \<Rightarrow> 'w \<Rightarrow> string \<times> 'w"

text \<open>
  The state of a run: the world, the events so far, and the variable \<open>pods\<close> of the
  handler, which the closure of step 2 reassigns.
\<close>

record 'w state =
  world :: 'w
  trace :: "event list"
  pods :: "V1Pod list"

definition emit :: "event \<Rightarrow> 'w state \<Rightarrow> 'w state" where
  "emit e s = s\<lparr>trace := trace s @ [e]\<rparr>"

text \<open>\<open>output\<close> and \<open>input\<close> of lines 55-63 (both names are Isabelle keywords).\<close>

definition output_text :: "message \<Rightarrow> 'w state \<Rightarrow> 'w state" where
  "output_text m s = emit (Out m) s"

definition failure :: "error + 'a \<Rightarrow> error option" where
  "failure r = (case r of Inl e \<Rightarrow> Some e | Inr _ \<Rightarrow> None)"

text \<open>An awaited API request: the world answers, the request is recorded.\<close>

definition api :: "call \<Rightarrow> ('w \<Rightarrow> (error + 'a) \<times> 'w) \<Rightarrow> 'w state \<Rightarrow> (error + 'a) \<times> 'w state" where
  "api c f s =
     (case f (world s) of
        (r, w') \<Rightarrow> (r, s\<lparr>world := w', trace := trace s @ [Call c (failure r)]\<rparr>))"

definition input_line :: "'w client \<Rightarrow> string \<Rightarrow> 'w state \<Rightarrow> string \<times> 'w state" where
  "input_line cl prompt s =
     (case questionAsync cl prompt (world s) of
        (a, w') \<Rightarrow> (a, s\<lparr>world := w', trace := trace s @ [Input prompt a]\<rparr>))"

section \<open>Discovery\<close>

definition podVolumes :: "V1Pod \<Rightarrow> V1Volume list" where
  "podVolumes pod =
     (case pod_spec pod of
        None \<Rightarrow> []
      | Some sp \<Rightarrow> (case volumes sp of None \<Rightarrow> [] | Some vs \<Rightarrow> vs))"

definition mountsClaim :: "V1Volume \<Rightarrow> string \<Rightarrow> bool" where
  "mountsClaim volume pvcName =
     (case persistentVolumeClaim volume of
        None \<Rightarrow> False
      | Some src \<Rightarrow> claimName src = Some pvcName)"

text \<open>Lines 7-29.  A pod is pushed once per matching volume.\<close>

definition getPodsMountingPVC ::
  "'w client \<Rightarrow> string \<Rightarrow> string \<Rightarrow> 'w state \<Rightarrow> (error + V1Pod list) \<times> 'w state" where
  "getPodsMountingPVC cl pvcName namespaceName s =
     (case api (ListNamespacedPod namespaceName) (listNamespacedPod cl namespaceName) s of
        (Inl e, s1) \<Rightarrow> (Inl e, s1)
      | (Inr items, s1) \<Rightarrow>
          (Inr (concat (map (\<lambda>pod.
                  concat (map (\<lambda>volume. if mountsClaim volume pvcName then [pod] else [])
                    (podVolumes pod))) items)), s1))"

definition metaUid :: "V1ObjectMeta option \<Rightarrow> string option" where
  "metaUid m = (case m of None \<Rightarrow> None | Some md \<Rightarrow> uid md)"

definition metaName :: "V1ObjectMeta option \<Rightarrow> string option" where
  "metaName m = (case m of None \<Rightarrow> None | Some md \<Rightarrow> name md)"

definition metaNamespace :: "V1ObjectMeta option \<Rightarrow> string option" where
  "metaNamespace m = (case m of None \<Rightarrow> None | Some md \<Rightarrow> namespace md)"

definition isBound :: "V1PersistentVolume \<Rightarrow> bool" where
  "isBound pv = (case pv_status pv of None \<Rightarrow> False | Some st \<Rightarrow> phase st = Some ''Bound'')"

text \<open>
  \<open>claimRef && claimRef.uid == pvc.metadata?.uid\<close>: the comparison is between two
  possibly undefined strings, and \<open>undefined == undefined\<close> holds.
\<close>

definition refersTo :: "V1PersistentVolume \<Rightarrow> V1PersistentVolumeClaim \<Rightarrow> bool" where
  "refersTo pv pvc =
     (case pv_spec pv of
        None \<Rightarrow> False
      | Some sp \<Rightarrow>
          (case claimRef sp of
             None \<Rightarrow> False
           | Some r \<Rightarrow> ref_uid r = metaUid (pvc_metadata pvc)))"

text \<open>The loop of lines 37-50: the first volume that is Bound to the claim, or \<open>null\<close>.\<close>

fun findPV :: "V1PersistentVolume list \<Rightarrow> V1PersistentVolumeClaim \<Rightarrow> V1PersistentVolume option" where
  "findPV [] pvc = None"
| "findPV (pv # pvs) pvc = (if isBound pv \<and> refersTo pv pvc then Some pv else findPV pvs pvc)"

definition getPVForPVC ::
  "'w client \<Rightarrow> V1PersistentVolumeClaim \<Rightarrow> 'w state \<Rightarrow> (error + V1PersistentVolume option) \<times> 'w state" where
  "getPVForPVC cl pvc s =
     (case api ListPersistentVolume (listPersistentVolume cl) s of
        (Inl e, s1) \<Rightarrow> (Inl e, s1)
      | (Inr items, s1) \<Rightarrow> (Inr (findPV items pvc), s1))"

section \<open>The run context and the six steps\<close>

text \<open>
  What the closures of the step actions capture: the command-line arguments, the run
  token \<open>uuid.v4()\<close>, the claim read during discovery and the volume found for it.
\<close>

record run_context =
  pvcName :: string
  namespaceName :: string
  newStorageClassName :: string
  runID :: string
  ctx_pvc :: V1PersistentVolumeClaim
  ctx_pv :: V1PersistentVolume

abbreviation readClaim ::
  "'w client \<Rightarrow> string option \<Rightarrow> string option \<Rightarrow> 'w state \<Rightarrow> (error + V1PersistentVolumeClaim) \<times> 'w state" where
  "readClaim cl nm ns \<equiv>
     api (ReadNamespacedPersistentVolumeClaim nm ns) (readNamespacedPersistentVolumeClaim cl nm ns)"

abbreviation patchVolume ::
  "'w client \<Rightarrow> string option \<Rightarrow> patch_op list \<Rightarrow> 'w state \<Rightarrow> (error + unit) \<times> 'w state" where
  "patchVolume cl nm ops \<equiv> api (PatchPersistentVolume nm ops) (patchPersistentVolume cl nm ops)"

abbreviation deleteClaim ::
  "'w client \<Rightarrow> string option \<Rightarrow> string option \<Rightarrow> 'w state \<Rightarrow> (error + unit) \<times> 'w state" where
  "deleteClaim cl nm ns \<equiv>
     api (DeleteNamespacedPersistentVolumeClaim nm ns) (deleteNamespacedPersistentVolumeClaim cl nm ns)"

abbreviation createClaim ::
  "'w client \<Rightarrow> string option \<Rightarrow> V1PersistentVolumeClaim \<Rightarrow> 'w state \<Rightarrow> (error + unit) \<times> 'w state" where
  "createClaim cl ns b \<equiv>
     api (CreateNamespacedPersistentVolumeClaim ns b) (createNamespacedPersistentVolumeClaim cl ns b)"

abbreviation createJob ::
  "'w client \<Rightarrow> string option \<Rightarrow> V1JobBody \<Rightarrow> 'w state \<Rightarrow> (error + unit) \<times> 'w state" where
  "createJob cl ns b \<equiv> api (CreateNamespacedJob ns b) (createNamespacedJob cl ns b)"

abbreviation readJobStatus ::
  "'w client \<Rightarrow> string \<Rightarrow> string option \<Rightarrow> 'w state \<Rightarrow> (error + V1Job) \<times> 'w state" where
  "readJobStatus cl nm ns \<equiv> api (ReadNamespacedJobStatus nm ns) (readNamespacedJobStatus cl nm ns)"

definition claimName_of :: "run_context \<Rightarrow> string option" where
  "claimName_of ctx = metaName (pvc_metadata (ctx_pvc ctx))"

definition claimNamespace :: "run_context \<Rightarrow> string option" where
  "claimNamespace ctx = metaNamespace (pvc_metadata (ctx_pvc ctx))"

definition volumeName_of :: "run_context \<Rightarrow> string option" where
  "volumeName_of ctx = metaName (pv_metadata (ctx_pv ctx))"

definition oldDataName :: "run_context \<Rightarrow> string" where
  "oldDataName ctx = ''csc-'' @ runID ctx @ ''-old-data''"

definition copyDataName :: "run_context \<Rightarrow> string" where
  "copyDataName ctx = ''csc-'' @ runID ctx @ ''-copy-data''"

definition podNames :: "V1Pod list \<Rightarrow> string option list" where
  "podNames ps = map (\<lambda>p. metaName (pod_metadata p)) ps"

subsection \<open>Step 1: retain the volume (lines 101-115)\<close>

definition step1_run :: "'w client \<Rightarrow> run_context \<Rightarrow> nat \<Rightarrow> 'w state \<Rightarrow> bool outcome \<times> 'w state" where
  "step1_run cl ctx n s =
     (case patchVolume cl (volumeName_of ctx)
             [Replace ''/spec/persistentVolumeReclaimPolicy'' ''Retain''] s of
        (Inl e, s1) \<Rightarrow> (Thrown e, s1)
      | (Inr _, s1) \<Rightarrow> (Returned True, s1))"

subsection \<open>Step 2: delete the claim and wait until it is gone (lines 116-145)\<close>

text \<open>\<open>e instanceof k8s.HttpError && e.statusCode == 404\<close>\<close>

definition isNotFound :: "error \<Rightarrow> bool" where
  "isNotFound e = (case e of HttpError sc b \<Rightarrow> sc = Some 404 | _ \<Rightarrow> False)"

text \<open>
  The \<open>while (true)\<close> of lines 119-140, with the number of iterations it may still
  start.  The \<open>catch\<close> block leaves the loop on a 404 and has no other statement, so
  after any other error control reaches the \<open>setTimeout\<close> like after a successful read.
\<close>

fun deletion_wait :: "'w client \<Rightarrow> run_context \<Rightarrow> nat \<Rightarrow> 'w state \<Rightarrow> unit outcome \<times> 'w state" where
  "deletion_wait cl ctx 0 s = (OutOfFuel, s)"
| "deletion_wait cl ctx (Suc n) s =
     (case getPodsMountingPVC cl (pvcName ctx) (namespaceName ctx) s of
        (Inl e, s1) \<Rightarrow> (Thrown e, s1)
      | (Inr ps, s1) \<Rightarrow>
          (case readClaim cl (claimName_of ctx) (claimNamespace ctx)
                  (output_text (WaitingDeletion (podNames ps))
                    (emit (CursorTo 0) (emit (ClearLine 0) (s1\<lparr>pods := ps\<rparr>)))) of
             (Inl e, s2) \<Rightarrow>
               if isNotFound e then (Returned (), s2)
               else deletion_wait cl ctx n (emit (Sleep 1000) s2)
           | (Inr _, s2) \<Rightarrow> deletion_wait cl ctx n (emit (Sleep 1000) s2)))"

definition step2_run :: "'w client \<Rightarrow> run_context \<Rightarrow> nat \<Rightarrow> 'w state \<Rightarrow> bool outcome \<times> 'w state" where
  "step2_run cl ctx n s =
     (case deleteClaim cl (claimName_of ctx) (claimNamespace ctx) s of
        (Inl e, s1) \<Rightarrow> (Thrown e, s1)
      | (Inr _, s1) \<Rightarrow>
          (case deletion_wait cl ctx n s1 of
             (Returned _, s2) \<Rightarrow> (Returned True, output_text Newline s2)
           | (Thrown e, s2) \<Rightarrow> (Thrown e, s2)
           | (OutOfFuel, s2) \<Rightarrow> (OutOfFuel, s2)))"

subsection \<open>Step 3: create the replacement claim (lines 146-164)\<close>

text \<open>\<open>k.startsWith(p)\<close>\<close>

definition startsWith :: "string \<Rightarrow> string \<Rightarrow> bool" where
  "startsWith k p = (take (length p) k = p)"

definition metaLabels :: "V1ObjectMeta option \<Rightarrow> (string, string) mapping option" where
  "metaLabels m = (case m of None \<Rightarrow> None | Some md \<Rightarrow> labels md)"

definition metaAnnotations :: "V1ObjectMeta option \<Rightarrow> (string, string) mapping option" where
  "metaAnnotations m = (case m of None \<Rightarrow> None | Some md \<Rightarrow> annotations md)"

text \<open>A spec object with no field set: what spreading an undefined \<open>pvc.spec\<close> leaves.\<close>

definition emptySpec :: V1PersistentVolumeClaimSpec where
  "emptySpec = \<lparr>accessModes = None, dataSource = None, dataSourceRef = None, resources = None,
     selector = None, storageClassName = None, volumeMode = None, volumeName = None\<rparr>"

text \<open>
  The object literal of lines 147-161.  \<open>Object.entries\<close> of an undefined \<open>annotations\<close>
  throws a \<open>TypeError\<close> while the argument is built, before the request is sent;
  \<open>Object.fromEntries(Object.entries(a).filter(...))\<close> keeps the entries whose key
  passes.  The new metadata has the four listed keys only.
\<close>

definition replacementClaim :: "run_context \<Rightarrow> error + V1PersistentVolumeClaim" where
  "replacementClaim ctx =
     (case metaAnnotations (pvc_metadata (ctx_pvc ctx)) of
        None \<Rightarrow> Inl TypeError
      | Some a \<Rightarrow>
          Inr ((ctx_pvc ctx)\<lparr>
            pvc_metadata := Some \<lparr>
              name = claimName_of ctx,
              namespace = claimNamespace ctx,
              uid = None,
              labels = metaLabels (pvc_metadata (ctx_pvc ctx)),
              annotations = Some (Mapping.filter (\<lambda>k v. \<not> startsWith k ''pv.kubernetes.io/'') a)\<rparr>,
            pvc_status := None,
            pvc_spec := Some ((case pvc_spec (ctx_pvc ctx) of None \<Rightarrow> emptySpec | Some sp \<Rightarrow> sp)\<lparr>
              storageClassName := Some (newStorageClassName ctx),
              volumeName := None\<rparr>)\<rparr>))"

definition step3_run :: "'w client \<Rightarrow> run_context \<Rightarrow> nat \<Rightarrow> 'w state \<Rightarrow> bool outcome \<times> 'w state" where
  "step3_run cl ctx n s =
     (case replacementClaim ctx of
        Inl e \<Rightarrow> (Thrown e, s)
      | Inr b \<Rightarrow>
          (case createClaim cl (claimNamespace ctx) b s of
             (Inl e, s1) \<Rightarrow> (Thrown e, s1)
           | (Inr _, s1) \<Rightarrow> (Returned True, s1)))"

subsection \<open>Step 4: free the old volume and claim it under a temporary name (lines 165-190)\<close>

definition temporaryClaim :: "run_context \<Rightarrow> V1PersistentVolumeClaim" where
  "temporaryClaim ctx =
     \<lparr>pvc_apiVersion = None, pvc_kind = None,
      pvc_metadata = Some \<lparr>name = Some (oldDataName ctx), namespace = None, uid = None,
        labels = None, annotations = None\<rparr>,
      pvc_spec = Some (emptySpec\<lparr>
        storageClassName := (case pvc_spec (ctx_pvc ctx) of None \<Rightarrow> None | Some sp \<Rightarrow> storageClassName sp),
        accessModes := (case pvc_spec (ctx_pvc ctx) of None \<Rightarrow> None | Some sp \<Rightarrow> accessModes sp),
        resources := (case pvc_spec (ctx_pvc ctx) of None \<Rightarrow> None | Some sp \<Rightarrow> resources sp),
        volumeName := volumeName_of ctx\<rparr>),
      pvc_status = None\<rparr>"

definition step4_run :: "'w client \<Rightarrow> run_context \<Rightarrow> nat \<Rightarrow> 'w state \<Rightarrow> bool outcome \<times> 'w state" where
  "step4_run cl ctx n s =
     (case patchVolume cl (volumeName_of ctx) [Remove ''/spec/claimRef''] s of
        (Inl e, s1) \<Rightarrow> (Thrown e, s1)
      | (Inr _, s1) \<Rightarrow>
          (case createClaim cl (claimNamespace ctx) (temporaryClaim ctx) s1 of
             (Inl e, s2) \<Rightarrow> (Thrown e, s2)
           | (Inr _, s2) \<Rightarrow> (Returned True, s2)))"

subsection \<open>Step 5: run the copy job and wait for it (lines 191-247)\<close>

definition copyJob :: "run_context \<Rightarrow> V1JobBody" where
  "copyJob ctx =
     \<lparr>job_name = copyDataName ctx,
      backoffLimit = 0,
      restartPolicy = ''Never'',
      containers = [\<lparr>container_name = ''rsync'', image = ''eeacms/rsync'',
        args = [''rsync'', ''-avx'', ''/old/'', ''/new''],
        volumeMounts = [(''old'', ''/old''), (''new'', ''/new'')]\<rparr>],
      job_volumes =
        [\<lparr>vol_name = ''old'', persistentVolumeClaim = Some \<lparr>claimName = Some (oldDataName ctx)\<rparr>\<rparr>,
         \<lparr>vol_name = ''new'', persistentVolumeClaim = Some \<lparr>claimName = claimName_of ctx\<rparr>\<rparr>]\<rparr>"

text \<open>\<open>jobStatus.body.status?.failed || 0\<close> and \<open>jobStatus.body.status?.succeeded || 0\<close>\<close>

definition failedCount :: "V1Job \<Rightarrow> int" where
  "failedCount j =
     (case job_status j of
        None \<Rightarrow> 0
      | Some st \<Rightarrow> (case failed st of None \<Rightarrow> 0 | Some c \<Rightarrow> c))"

definition succeededCount :: "V1Job \<Rightarrow> int" where
  "succeededCount j =
     (case job_status j of
        None \<Rightarrow> 0
      | Some st \<Rightarrow> (case succeeded st of None \<Rightarrow> 0 | Some c \<Rightarrow> c))"

text \<open>
  The \<open>while (true)\<close> of lines 223-242; the value returned is the variable
  \<open>succeeded\<close> when the loop is left.
\<close>

fun job_wait :: "'w client \<Rightarrow> run_context \<Rightarrow> nat \<Rightarrow> 'w state \<Rightarrow> bool outcome \<times> 'w state" where
  "job_wait cl ctx 0 s = (OutOfFuel, s)"
| "job_wait cl ctx (Suc n) s =
     (case readJobStatus cl (copyDataName ctx) (claimNamespace ctx) s of
        (Inl e, s1) \<Rightarrow> (Thrown e, s1)
      | (Inr jobStatus, s1) \<Rightarrow>
          if failedCount jobStatus > 0 then (Returned False, s1)
          else if succeededCount jobStatus > 0 then (Returned True, s1)
          else job_wait cl ctx n
                 (emit (Sleep 1000)
                   (output_text (WaitingJob (copyDataName ctx))
                     (emit (CursorTo 0) (emit (ClearLine 0) s1)))))"

definition step5_run :: "'w client \<Rightarrow> run_context \<Rightarrow> nat \<Rightarrow> 'w state \<Rightarrow> bool outcome \<times> 'w state" where
  "step5_run cl ctx n s =
     (case createJob cl (claimNamespace ctx) (copyJob ctx) s of
        (Inl e, s1) \<Rightarrow> (Thrown e, s1)
      | (Inr _, s1) \<Rightarrow>
          (case job_wait cl ctx n s1 of
             (Returned r, s2) \<Rightarrow> (Returned r, output_text Newline s2)
           | (Thrown e, s2) \<Rightarrow> (Thrown e, s2)
           | (OutOfFuel, s2) \<Rightarrow> (OutOfFuel, s2)))"

subsection \<open>Step 6: delete the temporary claim (lines 248-251)\<close>

definition step6_run :: "'w client \<Rightarrow> run_context \<Rightarrow> nat \<Rightarrow> 'w state \<Rightarrow> bool outcome \<times> 'w state" where
  "step6_run cl ctx n s =
     (case deleteClaim cl (Some (oldDataName ctx)) (claimNamespace ctx) s of
        (Inl e, s1) \<Rightarrow> (Thrown e, s1)
      | (Inr _, s1) \<Rightarrow> (Returned True, s1))"

section \<open>The plan and the sequencer (lines 94-298)\<close>

record 'w step =
  description :: string
  run :: "nat \<Rightarrow> 'w state \<Rightarrow> bool outcome \<times> 'w state"

definition steps :: "'w client \<Rightarrow> run_context \<Rightarrow> 'w step list" where
  "steps cl ctx =
     [\<lparr>description = ''Change the PV's reclaim policy (.spec.persistentVolumeReclaimPolicy) to Retain. This means the PV will not be deleted when the PVC is deleted.'',
       run = step1_run cl ctx\<rparr>,
      \<lparr>description = ''Delete the PVC. You will need to get rid of any Pods that mount the PVC (i.e. scale Deployments/StatefulSets/ReplicaSets to 0) before the deletion can complete.'',
       run = step2_run cl ctx\<rparr>,
      \<lparr>description = ''Create a new PVC, identical to the old one, except for the storage class, which will be changed to '' @ newStorageClassName ctx @ ''. This will cause a new PV to be provisioned by the '' @ newStorageClassName ctx @ '' storage provider.'',
       run = step3_run cl ctx\<rparr>,
      \<lparr>description = ''Create a temporary PVC to allow us to mount the old PV in order to copy the data across to the new one.'',
       run = step4_run cl ctx\<rparr>,
      \<lparr>description = ''Create a Job to copy the data. This Job's Pod will mount both the old PV and the new one.'',
       run = step5_run cl ctx\<rparr>,
      \<lparr>description = ''Delete the temporary PVC. Note that we do not delete the old PV - you can do this manually after you have checked that your data is intact in the new PV.'',
       run = step6_run cl ctx\<rparr>]"

text \<open>The listing loop of lines 256-260.\<close>

fun list_steps :: "nat \<Rightarrow> 'w step list \<Rightarrow> 'w state \<Rightarrow> 'w state" where
  "list_steps i [] s = s"
| "list_steps i (st # rest) s =
     list_steps (Suc i) rest (output_text (PlanLine (i + 1) (description st)) s)"

text \<open>What a \<open>return\<close> of the handler gives: \<open>return;\<close> or \<open>return false;\<close>.\<close>

datatype ret = RetUndefined | RetFalse

definition confirmPrompt :: string where
  "confirmPrompt = ''    Do you want to continue? (Y/N) ''"

definition errorDetail :: "error \<Rightarrow> json option" where
  "errorDetail e = (case e of HttpError sc b \<Rightarrow> Some b | _ \<Rightarrow> None)"

text \<open>
  The execution loop of lines 264-294, at index \<open>i\<close> with the steps from \<open>i\<close> on.
  \<open>Returned None\<close>: the loop ran to its end; \<open>Returned (Some r)\<close>: a \<open>return r\<close> inside
  the loop ended the handler.  \<open>n\<close> is the fuel handed to the step's polling loop.
\<close>

fun run_steps ::
  "'w client \<Rightarrow> nat \<Rightarrow> nat \<Rightarrow> 'w step list \<Rightarrow> 'w state \<Rightarrow> ret option outcome \<times> 'w state" where
  "run_steps cl n i [] s = (Returned None, s)"
| "run_steps cl n i (st # rest) s =
     (case input_line cl confirmPrompt (output_text (ReadyToRun (i + 1) (description st)) s) of
        (answer, s1) \<Rightarrow>
          if answer \<noteq> ''Y'' then (Returned (Some RetUndefined), s1)
          else
            (case run st n (emit (Invoke i) s1) of
               (Returned successful, s2) \<Rightarrow>
                 if successful
                 then run_steps cl n (i + 1) rest (output_text (StepSuccessful (i + 1)) s2)
                 else (Returned (Some RetFalse), output_text (StepFailed (i + 1) None) s2)
             | (Thrown e, s2) \<Rightarrow>
                 (Returned (Some RetFalse), output_text (StepFailed (i + 1) (errorDetail e)) s2)
             | (OutOfFuel, s2) \<Rightarrow> (OutOfFuel, s2)))"

text \<open>
  The handler of lines 75-299, from a fresh state: \<open>ns\<close>, \<open>sc\<close> and \<open>nm\<close> are the
  arguments \<open>namespaceName\<close>, \<open>newStorageClassName\<close> and \<open>pvcName\<close>, \<open>rid\<close> is the
  value of \<open>uuid.v4()\<close>.  An error of a discovery request is not caught.
\<close>

definition handler ::
  "'w client \<Rightarrow> nat \<Rightarrow> string \<Rightarrow> string \<Rightarrow> string \<Rightarrow> string \<Rightarrow> 'w \<Rightarrow> ret outcome \<times> 'w state" where
  "handler cl n ns sc nm rid w =
     (case readClaim cl (Some nm) (Some ns)
             (output_text GatheringInfo \<lparr>world = w, trace = [], pods = []\<rparr>) of
        (Inl e, s1) \<Rightarrow> (Thrown e, s1)
      | (Inr pvc, s1) \<Rightarrow>
          (case getPVForPVC cl pvc s1 of
             (Inl e, s2) \<Rightarrow> (Thrown e, s2)
           | (Inr pv, s2) \<Rightarrow>
               (case getPodsMountingPVC cl nm ns s2 of
                  (Inl e, s3) \<Rightarrow> (Thrown e, s3)
                | (Inr ps, s3) \<Rightarrow>
                    (let s4 = output_text Newline (output_text Done (s3\<lparr>pods := ps\<rparr>)) in
                     case pv of
                       None \<Rightarrow> (Returned RetUndefined, s4)
                     | Some v \<Rightarrow>
                         (let ctx = \<lparr>pvcName = nm, namespaceName = ns, newStorageClassName = sc,
                                     runID = rid, ctx_pvc = pvc, ctx_pv = v\<rparr>;
                              s5 = output_text Newline
                                     (output_text (Found (metaName (pvc_metadata pvc))
                                        (metaName (pv_metadata v)) (podNames ps))
                                       (output_text HeresWhatWeFound s4));
                              s6 = output_text Newline
                                     (list_steps 0 (steps cl ctx) (output_text IfYouApprove s5))
                          in case run_steps cl n 0 (steps cl ctx) s6 of
                               (Returned None, s7) \<Rightarrow>
                                 (Returned RetUndefined, output_text Finished (output_text Newline s7))
                             | (Returned (Some r), s7) \<Rightarrow> (Returned r, s7)
                             | (Thrown e, s7) \<Rightarrow> (Thrown e, s7)
                             | (OutOfFuel, s7) \<Rightarrow> (OutOfFuel, s7))))))"

section \<open>A scripted environment\<close>

text \<open>
  A world that answers from a script, to run the model on concrete inputs: the reads of
  the claim and of the job status are answered in order from two lists, the operator's
  answers from a third, the two listings are fixed, and every mutating request succeeds.
\<close>

record script =
  claim_reads :: "(error + V1PersistentVolumeClaim) list"
  volume_list :: "V1PersistentVolume list"
  pod_list :: "V1Pod list"
  job_reads :: "(error + V1Job) list"
  answers :: "string list"

definition scripted :: "script client" where
  "scripted =
     \<lparr>readNamespacedPersistentVolumeClaim = (\<lambda>nm ns w.
        case claim_reads w of
          [] \<Rightarrow> (Inl (OtherError ''end of script''), w)
        | r # rs \<Rightarrow> (r, w\<lparr>claim_reads := rs\<rparr>)),
      listPersistentVolume = (\<lambda>w. (Inr (volume_list w), w)),
      listNamespacedPod = (\<lambda>ns w. (Inr (pod_list w), w)),
      patchPersistentVolume = (\<lambda>nm ops w. (Inr (), w)),
      deleteNamespacedPersistentVolumeClaim = (\<lambda>nm ns w. (Inr (), w)),
      createNamespacedPersistentVolumeClaim = (\<lambda>ns b w. (Inr (), w)),
      createNamespacedJob = (\<lambda>ns b w. (Inr (), w)),
      readNamespacedJobStatus = (\<lambda>nm ns w.
        case job_reads w of
          [] \<Rightarrow> (Inl (OtherError ''end of script''), w)
        | r # rs \<Rightarrow> (r, w\<lparr>job_reads := rs\<rparr>)),
      questionAsync = (\<lambda>p w.
        case answers w of
          [] \<Rightarrow> ([], w)
        | a # as \<Rightarrow> (a, w\<lparr>answers := as\<rparr>))\<rparr>"

text \<open>The claim \<open>data\<close> of class \<open>standard\<close>, bound to the volume \<open>pv-1\<close>.\<close>

definition claim_data :: V1PersistentVolumeClaim where
  "claim_data =
     \<lparr>pvc_apiVersion = Some ''v1'', pvc_kind = Some ''PersistentVolumeClaim'',
      pvc_metadata = Some \<lparr>name = Some ''data'', namespace = Some ''default'',
        uid = Some ''u-1'', labels = Some (Mapping.of_alist [(''app'', ''db'')]),
        annotations = Some (Mapping.of_alist
          [(''pv.kubernetes.io/bound-by-controller'', ''yes''), (''team'', ''infra'')])\<rparr>,
      pvc_spec = Some (emptySpec\<lparr>accessModes := Some [''ReadWriteOnce''],
        resources := Some ''{requests:{storage:1Gi}}'',
        storageClassName := Some ''standard'', volumeMode := Some ''Filesystem'',
        volumeName := Some ''pv-1''\<rparr>),
      pvc_status = Some ''{phase:Bound}''\<rparr>"

definition volume_pv1 :: V1PersistentVolume where
  "volume_pv1 =
     \<lparr>pv_metadata = Some \<lparr>name = Some ''pv-1'', namespace = None, uid = Some ''u-2'',
        labels = None, annotations = None\<rparr>,
      pv_spec = Some \<lparr>claimRef = Some \<lparr>ref_uid = Some ''u-1''\<rparr>\<rparr>,
      pv_status = Some \<lparr>phase = Some ''Bound''\<rparr>\<rparr>"

definition ctx_data :: run_context where
  "ctx_data = \<lparr>pvcName = ''data'', namespaceName = ''default'', newStorageClassName = ''fast'',
     runID = ''r1'', ctx_pvc = claim_data, ctx_pv = volume_pv1\<rparr>"

definition start :: "script \<Rightarrow> script state" where
  "start w = \<lparr>world = w, trace = [], pods = []\<rparr>"

text \<open>A job status snapshot with the counters \<open>failed = f\<close> and \<open>succeeded = g\<close>.\<close>

definition snapshot :: "int \<Rightarrow> int \<Rightarrow> V1Job" where
  "snapshot f g = \<lparr>job_status = Some \<lparr>failed = Some f, succeeded = Some g\<rparr>\<rparr>"

text \<open>A cluster whose job never reports a status: every status read has no \<open>status\<close>.\<close>

definition silent_job :: "script client" where
  "silent_job = scripted\<lparr>readNamespacedJobStatus := (\<lambda>nm ns w. (Inr \<lparr>job_status = None\<rparr>, w))\<rparr>"

definition no_script :: script where
  "no_script = \<lparr>claim_reads = [], volume_list = [], pod_list = [], job_reads = [], answers = []\<rparr>"

text \<open>Two reads of the claim: a server error, then Not-Found.\<close>

definition script500 :: script where
  "script500 = no_script\<lparr>claim_reads :=
     [Inl (HttpError (Some 500) ''boom''), Inl (HttpError (Some 404) ''gone'')]\<rparr>"

text \<open>Three reads of the claim: it exists twice, then Not-Found.\<close>

definition script3 :: script where
  "script3 = no_script\<lparr>claim_reads :=
     [Inr claim_data, Inr claim_data, Inl (HttpError (Some 404) ''gone'')]\<rparr>"

text \<open>A cluster whose pod listing fails.\<close>

definition failing_list :: "script client" where
  "failing_list = scripted\<lparr>listNamespacedPod := (\<lambda>ns w. (Inl (OtherError ''down''), w))\<rparr>"

text \<open>The claim \<open>data\<close> read without an \<open>annotations\<close> field.\<close>

definition no_annotations :: V1PersistentVolumeClaim where
  "no_annotations = claim_data\<lparr>pvc_metadata :=
     Some \<lparr>name = Some ''data'', namespace = Some ''default'', uid = Some ''u-1'',
       labels = None, annotations = None\<rparr>\<rparr>"

text \<open>
  A whole run with every prompt answered \<open>Y\<close>: the claim is gone at the first poll, and
  the copy job reports nothing at its first status read and one failure at the second.
\<close>

definition script_job_fails :: script where
  "script_job_fails =
     \<lparr>claim_reads = [Inr claim_data, Inl (HttpError (Some 404) ''gone'')],
      volume_list = [volume_pv1], pod_list = [],
      job_reads = [Inr (snapshot 0 0), Inr (snapshot 1 0)],
      answers = [''Y'', ''Y'', ''Y'', ''Y'', ''Y'', ''Y'']\<rparr>"

text \<open>A whole run in which the operator answers \<open>Y\<close>, \<open>Y\<close> and then a lowercase \<open>y\<close>.\<close>

definition script_declines :: script where
  "script_declines =
     \<lparr>claim_reads = [Inr claim_data, Inl (HttpError (Some 404) ''gone'')],
      volume_list = [volume_pv1], pod_list = [], job_reads = [],
      answers = [''Y'', ''Y'', ''y'']\<rparr>"

text \<open>A Bound volume whose claim reference names another claim.\<close>

definition other_volume :: V1PersistentVolume where
  "other_volume = volume_pv1\<lparr>pv_spec := Some \<lparr>claimRef = Some \<lparr>ref_uid = Some ''u-9''\<rparr>\<rparr>\<rparr>"

text \<open>A cluster in which the only volume is bound to another claim.\<close>

definition script_unbound :: script where
  "script_unbound =
     \<lparr>claim_reads = [Inr claim_data], volume_list = [other_volume], pod_list = [], job_reads = [],
      answers = [''Y'', ''Y'', ''Y'', ''Y'', ''Y'', ''Y'']\<rparr>"

text \<open>The handler run on these scripts, for the claim \<open>data\<close> and the target class \<open>fast\<close>.\<close>

definition run_job_fails :: "ret outcome \<times> script state" where
  "run_job_fails = handler scripted 2 ''default'' ''fast'' ''data'' ''r1'' script_job_fails"

definition run_declines :: "ret outcome \<times> script state" where
  "run_declines = handler scripted 2 ''default'' ''fast'' ''data'' ''r1'' script_declines"

definition run_unbound :: "ret outcome \<times> script state" where
  "run_unbound = handler scripted 2 ''default'' ''fast'' ''data'' ''r1'' script_unbound"

definition ctx_no_annotations :: run_context where
  "ctx_no_annotations = ctx_data\<lparr>ctx_pvc := no_annotations\<rparr>"

section \<open>Notions used in the statements\<close>

text \<open>A snapshot without a status object, or with neither counter.\<close>

definition missingCounters :: "V1Job \<Rightarrow> bool" where
  "missingCounters j =
     (case job_status j of None \<Rightarrow> True | Some st \<Rightarrow> failed st = None \<and> succeeded st = None)"

text \<open>The state after a status read of the copy job that was answered, leaving the world \<open>w'\<close>.\<close>

definition afterJobRead :: "'w state \<Rightarrow> run_context \<Rightarrow> 'w \<Rightarrow> 'w state" where
  "afterJobRead s ctx w' =
     s\<lparr>world := w',
       trace := trace s @ [Call (ReadNamespacedJobStatus (copyDataName ctx) (claimNamespace ctx)) None]\<rparr>"

text \<open>One pending round of the job loop: the progress line is redrawn, then the sleep.\<close>

definition jobTick :: "run_context \<Rightarrow> 'w state \<Rightarrow> 'w state" where
  "jobTick ctx s =
     s\<lparr>trace := trace s @ [ClearLine 0, CursorTo 0, Out (WaitingJob (copyDataName ctx)), Sleep 1000]\<rparr>"

text \<open>The pods that \<open>getPodsMountingPVC\<close> collects from a listing.\<close>

definition mountingPods :: "V1Pod list \<Rightarrow> string \<Rightarrow> V1Pod list" where
  "mountingPods items nm =
     concat (map (\<lambda>pod. concat (map (\<lambda>volume. if mountsClaim volume nm then [pod] else [])
       (podVolumes pod))) items)"

text \<open>
  The state after one round of the deletion loop up to its read of the claim: the listing
  gave the pods \<open>ps\<close>, the read was answered with the error \<open>r\<close> (or none) and left
  the world \<open>w'\<close>.
\<close>

definition afterRound :: "run_context \<Rightarrow> V1Pod list \<Rightarrow> error option \<Rightarrow> 'w \<Rightarrow> 'w state \<Rightarrow> 'w state" where
  "afterRound ctx ps r w' s =
     s\<lparr>pods := ps, world := w',
       trace := trace s @
         [Call (ListNamespacedPod (namespaceName ctx)) None,
          ClearLine 0, CursorTo 0, Out (WaitingDeletion (podNames ps)),
          Call (ReadNamespacedPersistentVolumeClaim (claimName_of ctx) (claimNamespace ctx)) r]\<rparr>"

definition slept :: "'w state \<Rightarrow> 'w state" where
  "slept s = s\<lparr>trace := trace s @ [Sleep 1000]\<rparr>"

text \<open>Events of the deletion loop: its progress line, its sleep, its read of the claim.\<close>

definition isProgressReport :: "event \<Rightarrow> bool" where
  "isProgressReport e = (case e of Out (WaitingDeletion ps) \<Rightarrow> True | _ \<Rightarrow> False)"

definition isSleep :: "event \<Rightarrow> bool" where
  "isSleep e = (case e of Sleep ms \<Rightarrow> True | _ \<Rightarrow> False)"

definition isClaimRead :: "event \<Rightarrow> bool" where
  "isClaimRead e = (case e of Call (ReadNamespacedPersistentVolumeClaim nm ns) r \<Rightarrow> True | _ \<Rightarrow> False)"

text \<open>The events between a state and a later one.\<close>

definition newEvents :: "'w state \<Rightarrow> 'w state \<Rightarrow> event list" where
  "newEvents s s' = drop (length (trace s)) (trace s')"

text \<open>
  The events a step action produces: requests, sleeps, redraws of the progress line and
  the line feed after a wait.
\<close>

definition actionEvent :: "event \<Rightarrow> bool" where
  "actionEvent e =
     (case e of
        Call c r \<Rightarrow> True
      | Sleep ms \<Rightarrow> True
      | ClearLine d \<Rightarrow> True
      | CursorTo x \<Rightarrow> True
      | Out m \<Rightarrow> (case m of WaitingDeletion ps \<Rightarrow> True | WaitingJob nm \<Rightarrow> True | Newline \<Rightarrow> True
                  | _ \<Rightarrow> False)
      | _ \<Rightarrow> False)"

text \<open>A step whose action only appends such events to the trace.\<close>

definition well_behaved :: "'w step \<Rightarrow> bool" where
  "well_behaved st =
     (\<forall>n s. \<exists>evs. trace (snd (run st n s)) = trace s @ evs \<and> (\<forall>e\<in>set evs. actionEvent e))"

definition extends :: "'w state \<Rightarrow> 'w state \<Rightarrow> bool" where
  "extends s s' = (\<exists>evs. trace s' = trace s @ evs \<and> (\<forall>e\<in>set evs. actionEvent e))"

text \<open>
  The events of the sequencer proper: the answers to its prompt, the invocations of step
  actions, and its reports of a step's success or failure.  \<open>sequencing\<close> keeps these
  events of a trace, in order.
\<close>

definition isSequencing :: "event \<Rightarrow> bool" where
  "isSequencing e =
     (case e of
        Input p a \<Rightarrow> True
      | Invoke i \<Rightarrow> True
      | Out m \<Rightarrow> (case m of StepSuccessful k \<Rightarrow> True | StepFailed k b \<Rightarrow> True | _ \<Rightarrow> False)
      | _ \<Rightarrow> False)"

definition sequencing :: "event list \<Rightarrow> event list" where
  "sequencing tr = filter isSequencing tr"

text \<open>What a confirmed and successful step \<open>j\<close> leaves among the sequencing events.\<close>

definition goodRound :: "nat \<Rightarrow> event list" where
  "goodRound j = [Input confirmPrompt ''Y'', Invoke j, Out (StepSuccessful (j + 1))]"

text \<open>An answer to a prompt that is not the token \<open>Y\<close>.\<close>

definition declined :: "event \<Rightarrow> bool" where
  "declined e = (case e of Input p a \<Rightarrow> a \<noteq> ''Y'' | _ \<Rightarrow> False)"

text \<open>Nothing follows an event that satisfies \<open>P\<close>.\<close>

definition stops_at :: "(event \<Rightarrow> bool) \<Rightarrow> event list \<Rightarrow> bool" where
  "stops_at P evs = (\<forall>pre e post. evs = pre @ e # post \<and> P e \<longrightarrow> post = [])"

text \<open>
  The sequencing events of the loop started at index \<open>i\<close> with \<open>m\<close> steps left: \<open>k\<close>
  successful rounds, then nothing (all steps done), a declined prompt, a failed step, or
  a step that has not returned.
\<close>

definition skeleton :: "nat \<Rightarrow> nat \<Rightarrow> ret option outcome \<Rightarrow> event list \<Rightarrow> bool" where
  "skeleton i m out evs =
     (\<exists>k tail. k \<le> m \<and> sequencing evs = concat (map goodRound [i..<i + k]) @ tail \<and>
        ((tail = [] \<and> k = m \<and> out = Returned None)
         \<or> (k < m \<and> (\<exists>a. a \<noteq> ''Y'' \<and> tail = [Input confirmPrompt a])
              \<and> out = Returned (Some RetUndefined))
         \<or> (k < m \<and> (\<exists>b. tail = [Input confirmPrompt ''Y'', Invoke (i + k),
                                   Out (StepFailed (i + k + 1) b)])
              \<and> out = Returned (Some RetFalse))
         \<or> (k < m \<and> tail = [Input confirmPrompt ''Y'', Invoke (i + k)] \<and> out = OutOfFuel)))"

definition shaped :: "nat \<Rightarrow> nat \<Rightarrow> ret option outcome \<Rightarrow> event list \<Rightarrow> bool" where
  "shaped i m out evs =
     (skeleton i m out evs \<and> stops_at declined evs
      \<and> (out = Returned None \<longrightarrow> (\<forall>e\<in>set evs. \<not> declined e)))"

text \<open>A state whose trace has no sequencing event yet.\<close>

definition calm :: "'w state \<Rightarrow> bool" where
  "calm s = (\<forall>e\<in>set (trace s). \<not> isSequencing e)"

text \<open>What the handler does with the result of the loop (lines 296-297 and the returns).\<close>

definition finish :: "ret option outcome \<times> 'w state \<Rightarrow> ret outcome \<times> 'w state" where
  "finish r =
     (case r of
        (Returned None, s7) \<Rightarrow> (Returned RetUndefined, output_text Finished (output_text Newline s7))
      | (Returned (Some r), s7) \<Rightarrow> (Returned r, s7)
      | (Thrown e, s7) \<Rightarrow> (Thrown e, s7)
      | (OutOfFuel, s7) \<Rightarrow> (OutOfFuel, s7))"

text \<open>The sequencing events of a whole run of the handler.\<close>

definition run_shape :: "ret outcome \<Rightarrow> event list \<Rightarrow> nat \<Rightarrow> event list \<Rightarrow> bool" where
  "run_shape out tr k tail =
     (k \<le> 6 \<and> sequencing tr = concat (map goodRound [0..<k]) @ tail \<and>
        (tail = []
         \<or> (k < 6 \<and> (\<exists>a. a \<noteq> ''Y'' \<and> tail = [Input confirmPrompt a]) \<and> out = Returned RetUndefined)
         \<or> (k < 6 \<and> (\<exists>b. tail = [Input confirmPrompt ''Y'', Invoke k, Out (StepFailed (k + 1) b)])
              \<and> out = Returned RetFalse)
         \<or> (k < 6 \<and> tail = [Input confirmPrompt ''Y'', Invoke k] \<and> out = OutOfFuel)))"

text \<open>The state in which the action of step \<open>i\<close> starts after the answer \<open>Y\<close>.\<close>

definition afterConsent :: "nat \<Rightarrow> 'w step \<Rightarrow> 'w \<Rightarrow> 'w state \<Rightarrow> 'w state" where
  "afterConsent i st w' s =
     s\<lparr>world := w',
       trace := trace s @
         [Out (ReadyToRun (i + 1) (description st)), Input confirmPrompt ''Y'', Invoke i]\<rparr>"

text \<open>The texts written during a run.\<close>

fun outputs :: "event list \<Rightarrow> message list" where
  "outputs [] = []"
| "outputs (Out m # es) = m # outputs es"
| "outputs (e # es) = outputs es"

section \<open>Unfolding rules for runs on concrete scripts\<close>

lemmas run_defs = scripted_def ctx_data_def start_def api_def failure_def emit_def output_text_def
  claimNamespace_def copyDataName_def metaNamespace_def claim_data_def
  failedCount_def succeededCount_def snapshot_def afterJobRead_def jobTick_def

lemmas loop_defs = getPodsMountingPVC_def isNotFound_def claimName_of_def metaName_def podNames_def

lemmas handler_defs = handler_def getPVForPVC_def isBound_def refersTo_def metaUid_def
  volume_pv1_def steps_def step1_run_def step2_run_def step3_run_def step4_run_def step5_run_def
  step6_run_def replacementClaim_def metaAnnotations_def metaLabels_def volumeName_of_def
  input_line_def errorDetail_def Let_def

section \<open>The job-completion wait (step 5)\<close>

lemma job_wait_read:
  assumes "readNamespacedJobStatus cl (copyDataName ctx) (claimNamespace ctx) (world s) = (Inr j, w')"
  shows "job_wait cl ctx (Suc n) s =
     (if failedCount j > 0 then (Returned False, afterJobRead s ctx w')
      else if succeededCount j > 0 then (Returned True, afterJobRead s ctx w')
      else job_wait cl ctx n (jobTick ctx (afterJobRead s ctx w')))"
  using assms
  by (simp add: api_def failure_def afterJobRead_def jobTick_def emit_def output_text_def)

text \<open>A loop that returns \<open>true\<close> was left at a snapshot that counts as succeeded.\<close>

lemma job_wait_true:
  "job_wait cl ctx n s = (Returned True, s') \<Longrightarrow>
     \<exists>w j. readNamespacedJobStatus cl (copyDataName ctx) (claimNamespace ctx) w = (Inr j, world s')
        \<and> \<not> failedCount j > 0 \<and> succeededCount j > 0"
proof (induction n arbitrary: s)
  case 0
  then show ?case by simp
next
  case (Suc n)
  obtain r w' where
    rd: "readNamespacedJobStatus cl (copyDataName ctx) (claimNamespace ctx) (world s) = (r, w')"
    by (cases "readNamespacedJobStatus cl (copyDataName ctx) (claimNamespace ctx) (world s)")
  show ?case
  proof (cases r)
    case (Inl e)
    with rd Suc.prems show ?thesis by (simp add: api_def failure_def)
  next
    case (Inr j)
    with rd have rd':
      "readNamespacedJobStatus cl (copyDataName ctx) (claimNamespace ctx) (world s) = (Inr j, w')"
      by simp
    note unfolded = job_wait_read [OF rd', of n]
    show ?thesis
    proof (cases "failedCount j > 0")
      case True
      with unfolded Suc.prems show ?thesis by simp
    next
      case nf: False
      show ?thesis
      proof (cases "succeededCount j > 0")
        case True
        with nf unfolded Suc.prems have "s' = afterJobRead s ctx w'" by simp
        then have "world s' = w'" by (simp add: afterJobRead_def)
        with rd' nf True show ?thesis by blast
      next
        case False
        with nf unfolded Suc.prems
        have "job_wait cl ctx n (jobTick ctx (afterJobRead s ctx w')) = (Returned True, s')" by simp
        then show ?thesis by (rule Suc.IH)
      qed
    qed
  qed
qed

lemma step5_true:
  assumes "step5_run cl ctx n s = (Returned True, s')"
  shows "\<exists>w j. readNamespacedJobStatus cl (copyDataName ctx) (claimNamespace ctx) w = (Inr j, world s')
        \<and> \<not> failedCount j > 0 \<and> succeededCount j > 0"
proof -
  from assms obtain s1 s2 where
    jw: "job_wait cl ctx n s1 = (Returned True, s2)" and s': "s' = output_text Newline s2"
    by (auto simp: step5_run_def split: prod.splits sum.splits outcome.splits)
  from s' have "world s' = world s2" by (simp add: output_text_def emit_def)
  with job_wait_true [OF jw] show ?thesis by simp
qed

lemma missing_counts: "missingCounters j \<Longrightarrow> failedCount j = 0 \<and> succeededCount j = 0"
  by (auto simp: missingCounters_def failedCount_def succeededCount_def split: option.splits)

lemma job_wait_missing_forever:
  assumes "\<And>w. \<exists>j w'. readNamespacedJobStatus cl (copyDataName ctx) (claimNamespace ctx) w = (Inr j, w')
      \<and> missingCounters j"
  shows "fst (job_wait cl ctx n s) = OutOfFuel"
proof (induction n arbitrary: s)
  case 0
  show ?case by simp
next
  case (Suc n)
  from assms obtain j w' where
    rd: "readNamespacedJobStatus cl (copyDataName ctx) (claimNamespace ctx) (world s) = (Inr j, w')"
    and m: "missingCounters j" by blast
  from missing_counts [OF m] job_wait_read [OF rd, of n] Suc.IH show ?case by simp
qed

text \<open>
  Claim C3.  After a status read of the copy job that is answered with a snapshot \<open>j\<close>, the
  loop of step 5 decides in a fixed order: if the failed count of \<open>j\<close> is positive it is
  left with \<open>succeeded = false\<close>, whatever the succeeded count is; otherwise, if the
  succeeded count is positive, it is left with \<open>succeeded = true\<close>; otherwise the progress
  line is redrawn, the loop sleeps and goes on.  So a snapshot with both counts positive
  ends as failed.  And whenever step 5 returns \<open>true\<close>, the last snapshot read had no
  positive failed count and a positive succeeded count.
\<close>

theorem job_wait_evaluation_order:
  "(\<forall>j w'. readNamespacedJobStatus cl (copyDataName ctx) (claimNamespace ctx) (world s) = (Inr j, w') \<longrightarrow>
      (0 < failedCount j \<longrightarrow> job_wait cl ctx (Suc n) s = (Returned False, afterJobRead s ctx w'))
    \<and> (\<not> 0 < failedCount j \<and> 0 < succeededCount j \<longrightarrow>
          job_wait cl ctx (Suc n) s = (Returned True, afterJobRead s ctx w'))
    \<and> (\<not> 0 < failedCount j \<and> \<not> 0 < succeededCount j \<longrightarrow>
          job_wait cl ctx (Suc n) s = job_wait cl ctx n (jobTick ctx (afterJobRead s ctx w'))))
   \<and> (\<forall>m t t'. step5_run cl ctx m t = (Returned True, t') \<longrightarrow>
        (\<exists>w j. readNamespacedJobStatus cl (copyDataName ctx) (claimNamespace ctx) w = (Inr j, world t')
           \<and> \<not> 0 < failedCount j \<and> 0 < succeededCount j))"
proof (intro conjI allI impI)
  fix j w'
  assume rd: "readNamespacedJobStatus cl (copyDataName ctx) (claimNamespace ctx) (world s) = (Inr j, w')"
  note unfolded = job_wait_read [OF rd, of n]
  show "job_wait cl ctx (Suc n) s = (Returned False, afterJobRead s ctx w')" if "0 < failedCount j"
    using that unfolded by simp
  show "job_wait cl ctx (Suc n) s = (Returned True, afterJobRead s ctx w')"
    if "\<not> 0 < failedCount j \<and> 0 < succeededCount j"
    using that unfolded by simp
  show "job_wait cl ctx (Suc n) s = job_wait cl ctx n (jobTick ctx (afterJobRead s ctx w'))"
    if "\<not> 0 < failedCount j \<and> \<not> 0 < succeededCount j"
    using that unfolded by simp
next
  fix m t t'
  assume "step5_run cl ctx m t = (Returned True, t')"
  then show "\<exists>w j. readNamespacedJobStatus cl (copyDataName ctx) (claimNamespace ctx) w = (Inr j, world t')
           \<and> \<not> 0 < failedCount j \<and> 0 < succeededCount j"
    by (rule step5_true)
qed

theorem job_wait_evaluation_order_witness:
  "readNamespacedJobStatus scripted (copyDataName ctx_data) (claimNamespace ctx_data)
       (world (start (no_script\<lparr>job_reads := [Inr (snapshot 1 1)]\<rparr>)))
     = (Inr (snapshot 1 1), no_script)
   \<and> 0 < failedCount (snapshot 1 1) \<and> 0 < succeededCount (snapshot 1 1)
   \<and> job_wait scripted ctx_data (Suc 0) (start (no_script\<lparr>job_reads := [Inr (snapshot 1 1)]\<rparr>))
     = (Returned False, afterJobRead (start (no_script\<lparr>job_reads := [Inr (snapshot 1 1)]\<rparr>)) ctx_data no_script)
   \<and> step5_run scripted ctx_data 3
        (start (no_script\<lparr>job_reads := [Inr (snapshot 0 0), Inr (snapshot 0 0), Inr (snapshot 0 1)]\<rparr>))
      = (Returned True,
         \<lparr>world = no_script,
          trace = [Call (CreateNamespacedJob (Some ''default'') (copyJob ctx_data)) None,
            Call (ReadNamespacedJobStatus ''csc-r1-copy-data'' (Some ''default'')) None,
            ClearLine 0, CursorTo 0, Out (WaitingJob ''csc-r1-copy-data''), Sleep 1000,
            Call (ReadNamespacedJobStatus ''csc-r1-copy-data'' (Some ''default'')) None,
            ClearLine 0, CursorTo 0, Out (WaitingJob ''csc-r1-copy-data''), Sleep 1000,
            Call (ReadNamespacedJobStatus ''csc-r1-copy-data'' (Some ''default'')) None,
            Out Newline],
          pods = []\<rparr>)
   \<and> (\<exists>w j. readNamespacedJobStatus scripted (copyDataName ctx_data) (claimNamespace ctx_data) w
          = (Inr j, no_script) \<and> \<not> 0 < failedCount j \<and> 0 < succeededCount j)"
proof -
  let ?s = "start (no_script\<lparr>job_reads := [Inr (snapshot 1 1)]\<rparr>)"
  let ?t = "start (no_script\<lparr>job_reads := [Inr (snapshot 0 0), Inr (snapshot 0 0), Inr (snapshot 0 1)]\<rparr>)"
  let ?t' = "\<lparr>world = no_script,
          trace = [Call (CreateNamespacedJob (Some ''default'') (copyJob ctx_data)) None,
            Call (ReadNamespacedJobStatus ''csc-r1-copy-data'' (Some ''default'')) None,
            ClearLine 0, CursorTo 0, Out (WaitingJob ''csc-r1-copy-data''), Sleep 1000,
            Call (ReadNamespacedJobStatus ''csc-r1-copy-data'' (Some ''default'')) None,
            ClearLine 0, CursorTo 0, Out (WaitingJob ''csc-r1-copy-data''), Sleep 1000,
            Call (ReadNamespacedJobStatus ''csc-r1-copy-data'' (Some ''default'')) None,
            Out Newline],
          pods = []\<rparr> :: script state"
  have rd: "readNamespacedJobStatus scripted (copyDataName ctx_data) (claimNamespace ctx_data) (world ?s)
     = (Inr (snapshot 1 1), no_script)"
    by (simp add: scripted_def start_def no_script_def)
  have f: "0 < failedCount (snapshot 1 1)" and g: "0 < succeededCount (snapshot 1 1)"
    by (simp_all add: failedCount_def succeededCount_def snapshot_def)
  have run5: "step5_run scripted ctx_data 3 ?t = (Returned True, ?t')"
    by (simp add: step5_run_def run_defs no_script_def numeral_3_eq_3)
  note inst = job_wait_evaluation_order [of scripted ctx_data ?s 0]
  from inst rd f have one: "job_wait scripted ctx_data (Suc 0) ?s = (Returned False, afterJobRead ?s ctx_data no_script)"
    by blast
  from inst run5 have two: "\<exists>w j. readNamespacedJobStatus scripted (copyDataName ctx_data) (claimNamespace ctx_data) w
          = (Inr j, world ?t') \<and> \<not> 0 < failedCount j \<and> 0 < succeededCount j"
    by blast
  from rd f g one run5 two show ?thesis by simp
qed

text \<open>
  Claim C10.  A snapshot without a status object, or without both counters, counts as
  failed 0 and succeeded 0; a read answered with it leaves the loop pending (progress
  line, sleep, next round); and when every status read is answered with such a snapshot
  the loop does not return, however many rounds it is given.
\<close>

theorem job_wait_missing_counters:
  "(missingCounters j \<longrightarrow> failedCount j = 0 \<and> succeededCount j = 0)
   \<and> (\<forall>w'. readNamespacedJobStatus cl (copyDataName ctx) (claimNamespace ctx) (world s) = (Inr j, w')
          \<and> missingCounters j \<longrightarrow>
        job_wait cl ctx (Suc n) s = job_wait cl ctx n (jobTick ctx (afterJobRead s ctx w')))
   \<and> ((\<forall>w. \<exists>j w'. readNamespacedJobStatus cl (copyDataName ctx) (claimNamespace ctx) w = (Inr j, w')
          \<and> missingCounters j) \<longrightarrow>
        (\<forall>m t. fst (job_wait cl ctx m t) = OutOfFuel))"
proof (intro conjI allI impI)
  show "failedCount j = 0" "succeededCount j = 0" if "missingCounters j"
    using missing_counts [OF that] by simp_all
next
  fix w'
  assume a: "readNamespacedJobStatus cl (copyDataName ctx) (claimNamespace ctx) (world s) = (Inr j, w')
          \<and> missingCounters j"
  then have rd: "readNamespacedJobStatus cl (copyDataName ctx) (claimNamespace ctx) (world s) = (Inr j, w')"
    and m: "missingCounters j" by simp_all
  from missing_counts [OF m] job_wait_read [OF rd, of n]
  show "job_wait cl ctx (Suc n) s = job_wait cl ctx n (jobTick ctx (afterJobRead s ctx w'))" by simp
next
  fix m t
  assume "\<forall>w. \<exists>j w'. readNamespacedJobStatus cl (copyDataName ctx) (claimNamespace ctx) w = (Inr j, w')
          \<and> missingCounters j"
  then show "fst (job_wait cl ctx m t) = OutOfFuel"
    by (intro job_wait_missing_forever) blast
qed

theorem job_wait_missing_counters_witness:
  "missingCounters \<lparr>job_status = None\<rparr>
   \<and> failedCount \<lparr>job_status = None\<rparr> = 0 \<and> succeededCount \<lparr>job_status = None\<rparr> = 0
   \<and> missingCounters \<lparr>job_status = Some \<lparr>failed = None, succeeded = None\<rparr>\<rparr>
   \<and> (\<forall>w. \<exists>j w'. readNamespacedJobStatus silent_job (copyDataName ctx_data) (claimNamespace ctx_data) w = (Inr j, w')
          \<and> missingCounters j)
   \<and> job_wait silent_job ctx_data (Suc 0) (start no_script)
      = job_wait silent_job ctx_data 0 (jobTick ctx_data (afterJobRead (start no_script) ctx_data no_script))
   \<and> fst (job_wait silent_job ctx_data 1000 (start no_script)) = OutOfFuel"
proof -
  have m: "missingCounters \<lparr>job_status = None\<rparr>"
    and m': "missingCounters \<lparr>job_status = Some \<lparr>failed = None, succeeded = None\<rparr>\<rparr>"
    by (simp_all add: missingCounters_def)
  have rd: "readNamespacedJobStatus silent_job nm ns w = (Inr \<lparr>job_status = None\<rparr>, w)" for nm ns w
    by (simp add: silent_job_def scripted_def)
  have always: "\<forall>w. \<exists>j w'. readNamespacedJobStatus silent_job (copyDataName ctx_data) (claimNamespace ctx_data) w = (Inr j, w')
          \<and> missingCounters j"
    using rd m by blast
  note inst = job_wait_missing_counters [of "\<lparr>job_status = None\<rparr>" silent_job ctx_data "start no_script" 0]
  have w0: "world (start no_script) = no_script" by (simp add: start_def)
  from inst m have zero: "failedCount \<lparr>job_status = None\<rparr> = 0 \<and> succeededCount \<lparr>job_status = None\<rparr> = 0"
    by blast
  from inst m rd w0 have tick: "job_wait silent_job ctx_data (Suc 0) (start no_script)
      = job_wait silent_job ctx_data 0 (jobTick ctx_data (afterJobRead (start no_script) ctx_data no_script))"
    by metis
  from inst always have "fst (job_wait silent_job ctx_data 1000 (start no_script)) = OutOfFuel"
    by blast
  with m m' zero always tick show ?thesis by blast
qed

section \<open>The deletion wait (step 2)\<close>

lemma getPods_ok:
  assumes "listNamespacedPod cl ns (world s) = (Inr items, w1)"
  shows "getPodsMountingPVC cl nm ns s =
    (Inr (mountingPods items nm), s\<lparr>world := w1, trace := trace s @ [Call (ListNamespacedPod ns) None]\<rparr>)"
  using assms by (simp add: getPodsMountingPVC_def api_def failure_def mountingPods_def)

lemma getPods_fail:
  assumes "listNamespacedPod cl ns (world s) = (Inl e, w1)"
  shows "getPodsMountingPVC cl nm ns s =
    (Inl e, s\<lparr>world := w1, trace := trace s @ [Call (ListNamespacedPod ns) (Some e)]\<rparr>)"
  using assms by (simp add: getPodsMountingPVC_def api_def failure_def)

lemma deletion_wait_list_fail:
  assumes "listNamespacedPod cl (namespaceName ctx) (world s) = (Inl e, w1)"
  shows "deletion_wait cl ctx (Suc n) s =
    (Thrown e, s\<lparr>world := w1, trace := trace s @ [Call (ListNamespacedPod (namespaceName ctx)) (Some e)]\<rparr>)"
  by (simp add: getPods_fail [OF assms])

lemma deletion_wait_round:
  assumes "listNamespacedPod cl (namespaceName ctx) (world s) = (Inr items, w1)"
    and "readNamespacedPersistentVolumeClaim cl (claimName_of ctx) (claimNamespace ctx) w1 = (r, w2)"
  shows "deletion_wait cl ctx (Suc n) s =
    (case r of
       Inl e \<Rightarrow>
         if isNotFound e
         then (Returned (), afterRound ctx (mountingPods items (pvcName ctx)) (Some e) w2 s)
         else deletion_wait cl ctx n (slept (afterRound ctx (mountingPods items (pvcName ctx)) (Some e) w2 s))
     | Inr c \<Rightarrow> deletion_wait cl ctx n (slept (afterRound ctx (mountingPods items (pvcName ctx)) None w2 s)))"
  using assms(2)
  by (simp add: getPods_ok [OF assms(1)] api_def failure_def afterRound_def slept_def emit_def
      output_text_def split: sum.splits)

text \<open>How the loop can end: with a Not-Found read, or with a failed pod listing.\<close>

lemma deletion_wait_ends:
  "(\<forall>u s'. deletion_wait cl ctx n s = (Returned u, s') \<longrightarrow>
      (\<exists>e. isNotFound e \<and> trace s' \<noteq> [] \<and>
         last (trace s') = Call (ReadNamespacedPersistentVolumeClaim (claimName_of ctx) (claimNamespace ctx)) (Some e)))
   \<and> (\<forall>e s'. deletion_wait cl ctx n s = (Thrown e, s') \<longrightarrow>
        trace s' \<noteq> [] \<and> last (trace s') = Call (ListNamespacedPod (namespaceName ctx)) (Some e))"
proof (induction n arbitrary: s)
  case 0
  show ?case by simp
next
  case (Suc n)
  obtain l w1 where ls: "listNamespacedPod cl (namespaceName ctx) (world s) = (l, w1)"
    by (cases "listNamespacedPod cl (namespaceName ctx) (world s)")
  show ?case
  proof (cases l)
    case (Inl e)
    with ls deletion_wait_list_fail [of cl ctx s e w1 n] show ?thesis by simp
  next
    case (Inr items)
    obtain r w2 where rd:
      "readNamespacedPersistentVolumeClaim cl (claimName_of ctx) (claimNamespace ctx) w1 = (r, w2)"
      by (cases "readNamespacedPersistentVolumeClaim cl (claimName_of ctx) (claimNamespace ctx) w1")
    from ls Inr have ls': "listNamespacedPod cl (namespaceName ctx) (world s) = (Inr items, w1)" by simp
    note unfolded = deletion_wait_round [OF ls' rd, of n]
    show ?thesis
    proof (cases r)
      case (Inl e)
      show ?thesis
      proof (cases "isNotFound e")
        case True
        with Inl unfolded show ?thesis by (auto simp: afterRound_def)
      next
        case False
        with Inl unfolded Suc.IH show ?thesis by simp
      qed
    next
      case (Inr c)
      with unfolded Suc.IH show ?thesis by simp
    qed
  qed
qed

lemma script500_run:
  "deletion_wait scripted ctx_data 2 (start script500) =
     (Returned (),
      \<lparr>world = no_script,
       trace =
         [Call (ListNamespacedPod ''default'') None, ClearLine 0, CursorTo 0, Out (WaitingDeletion []),
          Call (ReadNamespacedPersistentVolumeClaim (Some ''data'') (Some ''default''))
            (Some (HttpError (Some 500) ''boom'')),
          Sleep 1000,
          Call (ListNamespacedPod ''default'') None, ClearLine 0, CursorTo 0, Out (WaitingDeletion []),
          Call (ReadNamespacedPersistentVolumeClaim (Some ''data'') (Some ''default''))
            (Some (HttpError (Some 404) ''gone''))],
       pods = []\<rparr>)"
  by (simp add: script500_def no_script_def run_defs loop_defs numeral_2_eq_2)

text \<open>
  Claim C1, as the code has it.  A read of the claim that fails with an error other than
  Not-Found (404) is caught and dropped: the loop sleeps and starts its next round, as
  after a read that found the claim; the error is not thrown out of the loop.  Only a
  Not-Found read ends the loop with success: whenever the loop returns, its last
  request is a read of the claim answered with Not-Found.  The only error the loop
  throws is one of its pod listing.
\<close>

theorem deletion_wait_swallows_other_errors:
  "(\<forall>items w1 e w2.
       listNamespacedPod cl (namespaceName ctx) (world s) = (Inr items, w1)
     \<and> readNamespacedPersistentVolumeClaim cl (claimName_of ctx) (claimNamespace ctx) w1 = (Inl e, w2)
     \<longrightarrow> deletion_wait cl ctx (Suc n) s =
           (if isNotFound e
            then (Returned (), afterRound ctx (mountingPods items (pvcName ctx)) (Some e) w2 s)
            else deletion_wait cl ctx n
                   (slept (afterRound ctx (mountingPods items (pvcName ctx)) (Some e) w2 s))))
   \<and> (\<forall>m t u t'. deletion_wait cl ctx m t = (Returned u, t') \<longrightarrow>
        (\<exists>e. isNotFound e \<and> trace t' \<noteq> [] \<and>
           last (trace t') =
             Call (ReadNamespacedPersistentVolumeClaim (claimName_of ctx) (claimNamespace ctx)) (Some e)))
   \<and> (\<forall>m t e t'. deletion_wait cl ctx m t = (Thrown e, t') \<longrightarrow>
        trace t' \<noteq> [] \<and> last (trace t') = Call (ListNamespacedPod (namespaceName ctx)) (Some e))"
proof (intro conjI allI impI)
  fix items w1 e w2
  assume a: "listNamespacedPod cl (namespaceName ctx) (world s) = (Inr items, w1)
     \<and> readNamespacedPersistentVolumeClaim cl (claimName_of ctx) (claimNamespace ctx) w1 = (Inl e, w2)"
  then have ls: "listNamespacedPod cl (namespaceName ctx) (world s) = (Inr items, w1)"
    and rd: "readNamespacedPersistentVolumeClaim cl (claimName_of ctx) (claimNamespace ctx) w1 = (Inl e, w2)"
    by simp_all
  from deletion_wait_round [OF ls rd, of n]
  show "deletion_wait cl ctx (Suc n) s =
           (if isNotFound e
            then (Returned (), afterRound ctx (mountingPods items (pvcName ctx)) (Some e) w2 s)
            else deletion_wait cl ctx n
                   (slept (afterRound ctx (mountingPods items (pvcName ctx)) (Some e) w2 s)))"
    by simp
next
  fix m t u t'
  assume "deletion_wait cl ctx m t = (Returned u, t')"
  with deletion_wait_ends [of cl ctx m t]
  show "\<exists>e. isNotFound e \<and> trace t' \<noteq> [] \<and>
           last (trace t') =
             Call (ReadNamespacedPersistentVolumeClaim (claimName_of ctx) (claimNamespace ctx)) (Some e)"
    by blast
next
  fix m t e t'
  assume "deletion_wait cl ctx m t = (Thrown e, t')"
  with deletion_wait_ends [of cl ctx m t]
  show "trace t' \<noteq> []" "last (trace t') = Call (ListNamespacedPod (namespaceName ctx)) (Some e)"
    by blast+
qed

theorem deletion_wait_swallows_other_errors_witness:
  "listNamespacedPod scripted (namespaceName ctx_data) (world (start script500)) = (Inr [], script500)
   \<and> readNamespacedPersistentVolumeClaim scripted (claimName_of ctx_data) (claimNamespace ctx_data) script500
       = (Inl (HttpError (Some 500) ''boom''),
          no_script\<lparr>claim_reads := [Inl (HttpError (Some 404) ''gone'')]\<rparr>)
   \<and> \<not> isNotFound (HttpError (Some 500) ''boom'')
   \<and> deletion_wait scripted ctx_data (Suc 1) (start script500) =
       deletion_wait scripted ctx_data 1
         (slept (afterRound ctx_data (mountingPods [] (pvcName ctx_data))
            (Some (HttpError (Some 500) ''boom''))
            (no_script\<lparr>claim_reads := [Inl (HttpError (Some 404) ''gone'')]\<rparr>) (start script500)))
   \<and> fst (deletion_wait scripted ctx_data 2 (start script500)) = Returned ()
   \<and> (\<exists>e. isNotFound e \<and>
         last (trace (snd (deletion_wait scripted ctx_data 2 (start script500)))) =
           Call (ReadNamespacedPersistentVolumeClaim (claimName_of ctx_data) (claimNamespace ctx_data)) (Some e))
   \<and> deletion_wait failing_list ctx_data 1 (start no_script) =
       (Thrown (OtherError ''down''),
        \<lparr>world = no_script, trace = [Call (ListNamespacedPod ''default'') (Some (OtherError ''down''))],
         pods = []\<rparr>)
   \<and> last (trace (snd (deletion_wait failing_list ctx_data 1 (start no_script)))) =
       Call (ListNamespacedPod (namespaceName ctx_data)) (Some (OtherError ''down''))"
proof -
  have ls: "listNamespacedPod scripted (namespaceName ctx_data) (world (start script500)) = (Inr [], script500)"
    by (simp add: scripted_def start_def script500_def no_script_def)
  have rd: "readNamespacedPersistentVolumeClaim scripted (claimName_of ctx_data) (claimNamespace ctx_data) script500
       = (Inl (HttpError (Some 500) ''boom''),
          no_script\<lparr>claim_reads := [Inl (HttpError (Some 404) ''gone'')]\<rparr>)"
    by (simp add: scripted_def script500_def no_script_def)
  have nf: "\<not> isNotFound (HttpError (Some 500) ''boom'')" by (simp add: isNotFound_def)
  have thrown: "deletion_wait failing_list ctx_data 1 (start no_script) =
       (Thrown (OtherError ''down''),
        \<lparr>world = no_script, trace = [Call (ListNamespacedPod ''default'') (Some (OtherError ''down''))],
         pods = []\<rparr>)"
    by (simp add: failing_list_def no_script_def run_defs loop_defs)
  note inst = deletion_wait_swallows_other_errors [of scripted ctx_data "start script500" 1]
  note inst' = deletion_wait_swallows_other_errors [of failing_list ctx_data "start no_script" 0]
  from inst ls rd nf have one: "deletion_wait scripted ctx_data (Suc 1) (start script500) =
       deletion_wait scripted ctx_data 1
         (slept (afterRound ctx_data (mountingPods [] (pvcName ctx_data))
            (Some (HttpError (Some 500) ''boom''))
            (no_script\<lparr>claim_reads := [Inl (HttpError (Some 404) ''gone'')]\<rparr>) (start script500)))"
    by (metis (no_types, lifting))
  have ret: "fst (deletion_wait scripted ctx_data 2 (start script500)) = Returned ()"
    by (simp add: script500_run)
  then have "deletion_wait scripted ctx_data 2 (start script500)
     = (Returned (), snd (deletion_wait scripted ctx_data 2 (start script500)))"
    by (metis prod.collapse)
  with inst have two: "\<exists>e. isNotFound e \<and>
         last (trace (snd (deletion_wait scripted ctx_data 2 (start script500)))) =
           Call (ReadNamespacedPersistentVolumeClaim (claimName_of ctx_data) (claimNamespace ctx_data)) (Some e)"
    by blast
  from inst' thrown have three: "last (trace (snd (deletion_wait failing_list ctx_data 1 (start no_script)))) =
       Call (ListNamespacedPod (namespaceName ctx_data)) (Some (OtherError ''down''))"
    by (metis snd_conv)
  from ls rd nf one ret two thrown three show ?thesis by blast
qed

text \<open>
  Claim C1 as stated fails: with the reads answered by a server error (500) and then by
  Not-Found, the loop does not throw the server error; it returns, and step 2 succeeds.
\<close>

theorem deletion_wait_propagation_counterexample:
  "readNamespacedPersistentVolumeClaim scripted (Some ''data'') (Some ''default'') script500
     = (Inl (HttpError (Some 500) ''boom''),
        no_script\<lparr>claim_reads := [Inl (HttpError (Some 404) ''gone'')]\<rparr>)
   \<and> \<not> isNotFound (HttpError (Some 500) ''boom'')
   \<and> fst (deletion_wait scripted ctx_data 2 (start script500)) = Returned ()
   \<and> fst (deletion_wait scripted ctx_data 2 (start script500)) \<noteq> Thrown (HttpError (Some 500) ''boom'')
   \<and> fst (step2_run scripted ctx_data 2 (start script500)) = Returned True"
proof -
  have "fst (step2_run scripted ctx_data 2 (start script500)) = Returned True"
    by (simp add: step2_run_def script500_def no_script_def run_defs loop_defs numeral_2_eq_2)
  moreover have "readNamespacedPersistentVolumeClaim scripted (Some ''data'') (Some ''default'') script500
     = (Inl (HttpError (Some 500) ''boom''),
        no_script\<lparr>claim_reads := [Inl (HttpError (Some 404) ''gone'')]\<rparr>)"
    by (simp add: scripted_def script500_def no_script_def)
  ultimately show ?thesis by (simp add: script500_run isNotFound_def)
qed

text \<open>
  Claim C7, as the code has it.  When the reads of the claim are answered: found, found,
  Not-Found (and the pod listings succeed), the loop returns at the third read, after
  exactly three progress lines, one before each read, and exactly two sleeps.
\<close>

theorem deletion_wait_three_reads:
  assumes "listNamespacedPod cl (namespaceName ctx) (world s) = (Inr i1, w1)"
    and "readNamespacedPersistentVolumeClaim cl (claimName_of ctx) (claimNamespace ctx) w1 = (Inr c1, w2)"
    and "listNamespacedPod cl (namespaceName ctx) w2 = (Inr i2, w3)"
    and "readNamespacedPersistentVolumeClaim cl (claimName_of ctx) (claimNamespace ctx) w3 = (Inr c2, w4)"
    and "listNamespacedPod cl (namespaceName ctx) w4 = (Inr i3, w5)"
    and "readNamespacedPersistentVolumeClaim cl (claimName_of ctx) (claimNamespace ctx) w5 = (Inl e, w6)"
    and "isNotFound e"
    and "s' = afterRound ctx (mountingPods i3 (pvcName ctx)) (Some e) w6
                (slept (afterRound ctx (mountingPods i2 (pvcName ctx)) None w4
                  (slept (afterRound ctx (mountingPods i1 (pvcName ctx)) None w2 s))))"
  shows "deletion_wait cl ctx (Suc (Suc (Suc n))) s = (Returned (), s')
    \<and> length (filter isClaimRead (newEvents s s')) = 3
    \<and> length (filter isProgressReport (newEvents s s')) = 3
    \<and> length (filter isSleep (newEvents s s')) = 2"
proof -
  let ?s1 = "slept (afterRound ctx (mountingPods i1 (pvcName ctx)) None w2 s)"
  let ?s2 = "slept (afterRound ctx (mountingPods i2 (pvcName ctx)) None w4 ?s1)"
  have w1: "world ?s1 = w2" and w2: "world ?s2 = w4"
    by (simp_all add: slept_def afterRound_def)
  have "deletion_wait cl ctx (Suc (Suc (Suc n))) s = deletion_wait cl ctx (Suc (Suc n)) ?s1"
    using deletion_wait_round [OF assms(1) assms(2)] by simp
  also have "\<dots> = deletion_wait cl ctx (Suc n) ?s2"
    using deletion_wait_round [of cl ctx ?s1 i2 w3 "Inr c2" w4] assms(3,4) w1 by simp
  also have "\<dots> = (Returned (), s')"
    using deletion_wait_round [of cl ctx ?s2 i3 w5 "Inl e" w6] assms(5-8) w2 by simp
  finally have run: "deletion_wait cl ctx (Suc (Suc (Suc n))) s = (Returned (), s')" .
  have ev: "newEvents s s' =
     [Call (ListNamespacedPod (namespaceName ctx)) None, ClearLine 0, CursorTo 0,
      Out (WaitingDeletion (podNames (mountingPods i1 (pvcName ctx)))),
      Call (ReadNamespacedPersistentVolumeClaim (claimName_of ctx) (claimNamespace ctx)) None,
      Sleep 1000,
      Call (ListNamespacedPod (namespaceName ctx)) None, ClearLine 0, CursorTo 0,
      Out (WaitingDeletion (podNames (mountingPods i2 (pvcName ctx)))),
      Call (ReadNamespacedPersistentVolumeClaim (claimName_of ctx) (claimNamespace ctx)) None,
      Sleep 1000,
      Call (ListNamespacedPod (namespaceName ctx)) None, ClearLine 0, CursorTo 0,
      Out (WaitingDeletion (podNames (mountingPods i3 (pvcName ctx)))),
      Call (ReadNamespacedPersistentVolumeClaim (claimName_of ctx) (claimNamespace ctx)) (Some e)]"
    by (simp add: assms(8) newEvents_def slept_def afterRound_def)
  have "length (filter isClaimRead (newEvents s s')) = 3
    \<and> length (filter isProgressReport (newEvents s s')) = 3
    \<and> length (filter isSleep (newEvents s s')) = 2"
    by (simp add: ev isClaimRead_def isProgressReport_def isSleep_def)
  with run show ?thesis by blast
qed

lemma script3_reads:
  "listNamespacedPod scripted ns w = (Inr (pod_list w), w)"
  "readNamespacedPersistentVolumeClaim scripted nm ns' (w\<lparr>claim_reads := r # rs\<rparr>) = (r, w\<lparr>claim_reads := rs\<rparr>)"
  by (simp_all add: scripted_def)

theorem deletion_wait_three_reads_witness:
  "isNotFound (HttpError (Some 404) ''gone'')
   \<and> fst (deletion_wait scripted ctx_data 3 (start script3)) = Returned ()
   \<and> length (filter isClaimRead (trace (snd (deletion_wait scripted ctx_data 3 (start script3))))) = 3
   \<and> length (filter isProgressReport (trace (snd (deletion_wait scripted ctx_data 3 (start script3))))) = 3
   \<and> length (filter isSleep (trace (snd (deletion_wait scripted ctx_data 3 (start script3))))) = 2"
proof -
  let ?w = "\<lambda>rs. no_script\<lparr>claim_reads := rs\<rparr>"
  let ?g = "Inl (HttpError (Some 404) ''gone'') :: error + V1PersistentVolumeClaim"
  let ?s' = "afterRound ctx_data (mountingPods [] (pvcName ctx_data)) (Some (HttpError (Some 404) ''gone'')) (?w [])
                (slept (afterRound ctx_data (mountingPods [] (pvcName ctx_data)) None (?w [?g])
                  (slept (afterRound ctx_data (mountingPods [] (pvcName ctx_data)) None (?w [Inr claim_data, ?g]) (start script3)))))"
  have nf: "isNotFound (HttpError (Some 404) ''gone'')" by (simp add: isNotFound_def)
  have pl: "pod_list (?w rs) = []" for rs by (simp add: no_script_def)
  have w0: "world (start script3) = ?w [Inr claim_data, Inr claim_data, ?g]"
    by (simp add: start_def script3_def)
  have t0: "newEvents (start script3) t = trace t" for t :: "script state"
    by (simp add: newEvents_def start_def)
  note inst = deletion_wait_three_reads [of scripted ctx_data "start script3"
      "[]" "?w [Inr claim_data, Inr claim_data, ?g]" claim_data "?w [Inr claim_data, ?g]"
      "[]" "?w [Inr claim_data, ?g]" claim_data "?w [?g]"
      "[]" "?w [?g]" "HttpError (Some 404) ''gone''" "?w []" ?s' 0]
  have "deletion_wait scripted ctx_data (Suc (Suc (Suc 0))) (start script3) = (Returned (), ?s')
    \<and> length (filter isClaimRead (newEvents (start script3) ?s')) = 3
    \<and> length (filter isProgressReport (newEvents (start script3) ?s')) = 3
    \<and> length (filter isSleep (newEvents (start script3) ?s')) = 2"
    by (rule inst) (simp_all add: w0 script3_reads pl nf)
  then show ?thesis by (simp add: nf t0 numeral_3_eq_3)
qed

text \<open>
  Claim C7 as stated fails: on the reads found, found, Not-Found the loop writes its
  progress line three times, not twice.
\<close>

theorem deletion_wait_two_ticks_counterexample:
  "fst (deletion_wait scripted ctx_data 3 (start script3)) = Returned ()
   \<and> length (filter isClaimRead (trace (snd (deletion_wait scripted ctx_data 3 (start script3))))) = 3
   \<and> length (filter isProgressReport (trace (snd (deletion_wait scripted ctx_data 3 (start script3))))) \<noteq> 2"
  by (simp add: script3_def no_script_def run_defs loop_defs numeral_3_eq_3 isClaimRead_def
      isProgressReport_def)

section \<open>The replacement claim (step 3)\<close>

lemma api_events:
  "\<exists>r w'. f (world s) = (r, w') \<and>
     api c f s = (r, s\<lparr>world := w', trace := trace s @ [Call c (failure r)]\<rparr>)"
  by (cases "f (world s)") (simp add: api_def)

text \<open>When the body can be built, step 3 sends exactly one request: the creation of that body.\<close>

lemma step3_creates:
  assumes "replacementClaim ctx = Inr b"
  shows "\<exists>e. newEvents s (snd (step3_run cl ctx n s)) =
     [Call (CreateNamespacedPersistentVolumeClaim (claimNamespace ctx) b) e]"
proof -
  obtain r w' where "createClaim cl (claimNamespace ctx) b s =
      (r, s\<lparr>world := w', trace := trace s @
        [Call (CreateNamespacedPersistentVolumeClaim (claimNamespace ctx) b) (failure r)]\<rparr>)"
    using api_events [of "createNamespacedPersistentVolumeClaim cl (claimNamespace ctx) b" s
        "CreateNamespacedPersistentVolumeClaim (claimNamespace ctx) b"]
    by blast
  then show ?thesis
    by (cases r) (auto simp: step3_run_def assms newEvents_def)
qed

text \<open>
  Claim C5.  When the source claim has an annotations map, the claim that step 3 sends
  for creation carries exactly the entries of that map whose key does not start with
  \<open>pv.kubernetes.io/\<close>, each with its value: a key with the prefix is absent, any other
  key is looked up as in the source.  For the annotations
  \<open>{pv.kubernetes.io/bound-by-controller: yes, team: infra}\<close> the result is
  \<open>{team: infra}\<close>.
\<close>

theorem replacement_claim_annotations:
  assumes "metaAnnotations (pvc_metadata (ctx_pvc ctx)) = Some a"
  shows "\<exists>b a'. replacementClaim ctx = Inr b
    \<and> (\<exists>e. newEvents s (snd (step3_run cl ctx n s)) =
          [Call (CreateNamespacedPersistentVolumeClaim (claimNamespace ctx) b) e])
    \<and> metaAnnotations (pvc_metadata b) = Some a'
    \<and> (\<forall>k. Mapping.lookup a' k =
          (if startsWith k ''pv.kubernetes.io/'' then None else Mapping.lookup a k))"
proof -
  let ?a' = "Mapping.filter (\<lambda>k v. \<not> startsWith k ''pv.kubernetes.io/'') a"
  obtain b where b: "replacementClaim ctx = Inr b" and an: "metaAnnotations (pvc_metadata b) = Some ?a'"
    using assms by (simp add: replacementClaim_def metaAnnotations_def)
  have "Mapping.lookup ?a' k = (if startsWith k ''pv.kubernetes.io/'' then None else Mapping.lookup a k)" for k
    by (simp add: lookup_filter split: option.splits)
  with b an step3_creates [OF b] show ?thesis by blast
qed

theorem replacement_claim_annotations_witness:
  "metaAnnotations (pvc_metadata (ctx_pvc ctx_data)) =
     Some (Mapping.of_alist [(''pv.kubernetes.io/bound-by-controller'', ''yes''), (''team'', ''infra'')])
   \<and> (\<exists>b. replacementClaim ctx_data = Inr b
        \<and> metaAnnotations (pvc_metadata b) = Some (Mapping.of_alist [(''team'', ''infra'')]))"
proof -
  let ?a = "Mapping.of_alist [(''pv.kubernetes.io/bound-by-controller'', ''yes''), (''team'', ''infra'')]"
  have src: "metaAnnotations (pvc_metadata (ctx_pvc ctx_data)) = Some ?a"
    by (simp add: ctx_data_def claim_data_def metaAnnotations_def)
  from replacement_claim_annotations [OF src, of "start no_script" scripted 0]
  obtain b a' where b: "replacementClaim ctx_data = Inr b"
    and an: "metaAnnotations (pvc_metadata b) = Some a'"
    and lk: "\<And>k. Mapping.lookup a' k =
          (if startsWith k ''pv.kubernetes.io/'' then None else Mapping.lookup ?a k)"
    by blast
  have "a' = Mapping.of_alist [(''team'', ''infra'')]"
  proof (rule mapping_eqI)
    fix k :: string
    show "Mapping.lookup a' k = Mapping.lookup (Mapping.of_alist [(''team'', ''infra'')]) k"
      by (auto simp: lk lookup_of_alist startsWith_def)
  qed
  with src b an show ?thesis by blast
qed

text \<open>
  Claim C6.  The claim that step 3 sends for creation (when the source claim has an
  annotations map, so that the body can be built) has the name, the namespace and the
  labels of the source claim, and is created in the source's namespace.  Its spec is the
  source's spec with \<open>storageClassName\<close> set to the target class and \<open>volumeName\<close>
  removed; the six other fields are those of the source.  A source without a spec gives
  a spec with the target class only.
\<close>

theorem replacement_claim_frame:
  assumes "metaAnnotations (pvc_metadata (ctx_pvc ctx)) = Some a"
  shows "\<exists>b sp'. replacementClaim ctx = Inr b
    \<and> (\<exists>e. newEvents s (snd (step3_run cl ctx n s)) =
          [Call (CreateNamespacedPersistentVolumeClaim (metaNamespace (pvc_metadata (ctx_pvc ctx))) b) e])
    \<and> metaName (pvc_metadata b) = metaName (pvc_metadata (ctx_pvc ctx))
    \<and> metaNamespace (pvc_metadata b) = metaNamespace (pvc_metadata (ctx_pvc ctx))
    \<and> metaLabels (pvc_metadata b) = metaLabels (pvc_metadata (ctx_pvc ctx))
    \<and> pvc_spec b = Some sp'
    \<and> storageClassName sp' = Some (newStorageClassName ctx)
    \<and> volumeName sp' = None
    \<and> (\<forall>sp. pvc_spec (ctx_pvc ctx) = Some sp \<longrightarrow>
          sp' = sp\<lparr>storageClassName := Some (newStorageClassName ctx), volumeName := None\<rparr>
          \<and> accessModes sp' = accessModes sp \<and> dataSource sp' = dataSource sp
          \<and> dataSourceRef sp' = dataSourceRef sp \<and> resources sp' = resources sp
          \<and> selector sp' = selector sp \<and> volumeMode sp' = volumeMode sp)
    \<and> (pvc_spec (ctx_pvc ctx) = None \<longrightarrow>
          sp' = emptySpec\<lparr>storageClassName := Some (newStorageClassName ctx)\<rparr>)"
proof -
  let ?sp = "(case pvc_spec (ctx_pvc ctx) of None \<Rightarrow> emptySpec | Some sp \<Rightarrow> sp)
     \<lparr>storageClassName := Some (newStorageClassName ctx), volumeName := None\<rparr>"
  obtain b where b: "replacementClaim ctx = Inr b"
    and md: "metaName (pvc_metadata b) = metaName (pvc_metadata (ctx_pvc ctx))"
      "metaNamespace (pvc_metadata b) = metaNamespace (pvc_metadata (ctx_pvc ctx))"
      "metaLabels (pvc_metadata b) = metaLabels (pvc_metadata (ctx_pvc ctx))"
    and sp: "pvc_spec b = Some ?sp"
    using assms
    by (simp add: replacementClaim_def metaName_def metaNamespace_def metaLabels_def
        claimName_of_def claimNamespace_def)
  have f1: "storageClassName ?sp = Some (newStorageClassName ctx)" "volumeName ?sp = None"
    by simp_all
  have f2: "\<forall>sp. pvc_spec (ctx_pvc ctx) = Some sp \<longrightarrow>
          ?sp = sp\<lparr>storageClassName := Some (newStorageClassName ctx), volumeName := None\<rparr>
          \<and> accessModes ?sp = accessModes sp \<and> dataSource ?sp = dataSource sp
          \<and> dataSourceRef ?sp = dataSourceRef sp \<and> resources ?sp = resources sp
          \<and> selector ?sp = selector sp \<and> volumeMode ?sp = volumeMode sp"
    by simp
  have f3: "pvc_spec (ctx_pvc ctx) = None \<longrightarrow>
          ?sp = emptySpec\<lparr>storageClassName := Some (newStorageClassName ctx)\<rparr>"
    by (simp add: emptySpec_def)
  from step3_creates [OF b, of s cl n]
  have ev: "\<exists>e. newEvents s (snd (step3_run cl ctx n s)) =
          [Call (CreateNamespacedPersistentVolumeClaim (metaNamespace (pvc_metadata (ctx_pvc ctx))) b) e]"
    by (simp add: claimNamespace_def)
  show ?thesis
  proof (rule exI [of _ b], rule exI [of _ ?sp], intro conjI)
    show "replacementClaim ctx = Inr b" by (rule b)
    show "\<exists>e. newEvents s (snd (step3_run cl ctx n s)) =
          [Call (CreateNamespacedPersistentVolumeClaim (metaNamespace (pvc_metadata (ctx_pvc ctx))) b) e]"
      by (rule ev)
    show "metaName (pvc_metadata b) = metaName (pvc_metadata (ctx_pvc ctx))" by (rule md)
    show "metaNamespace (pvc_metadata b) = metaNamespace (pvc_metadata (ctx_pvc ctx))" by (rule md)
    show "metaLabels (pvc_metadata b) = metaLabels (pvc_metadata (ctx_pvc ctx))" by (rule md)
    show "pvc_spec b = Some ?sp" by (rule sp)
    show "storageClassName ?sp = Some (newStorageClassName ctx)" by (rule f1)
    show "volumeName ?sp = None" by (rule f1)
    show "\<forall>sp. pvc_spec (ctx_pvc ctx) = Some sp \<longrightarrow>
          ?sp = sp\<lparr>storageClassName := Some (newStorageClassName ctx), volumeName := None\<rparr>
          \<and> accessModes ?sp = accessModes sp \<and> dataSource ?sp = dataSource sp
          \<and> dataSourceRef ?sp = dataSourceRef sp \<and> resources ?sp = resources sp
          \<and> selector ?sp = selector sp \<and> volumeMode ?sp = volumeMode sp"
      by (rule f2)
    show "pvc_spec (ctx_pvc ctx) = None \<longrightarrow>
          ?sp = emptySpec\<lparr>storageClassName := Some (newStorageClassName ctx)\<rparr>"
      by (rule f3)
  qed
qed

theorem replacement_claim_frame_witness:
  "metaAnnotations (pvc_metadata (ctx_pvc ctx_data)) =
     Some (Mapping.of_alist [(''pv.kubernetes.io/bound-by-controller'', ''yes''), (''team'', ''infra'')])
   \<and> (\<exists>b. replacementClaim ctx_data = Inr b
        \<and> newEvents (start no_script) (snd (step3_run scripted ctx_data 0 (start no_script))) =
            [Call (CreateNamespacedPersistentVolumeClaim (Some ''default'') b) None]
        \<and> metaName (pvc_metadata b) = Some ''data''
        \<and> metaNamespace (pvc_metadata b) = Some ''default''
        \<and> metaLabels (pvc_metadata b) = Some (Mapping.of_alist [(''app'', ''db'')])
        \<and> pvc_spec b = Some (emptySpec\<lparr>accessModes := Some [''ReadWriteOnce''],
             resources := Some ''{requests:{storage:1Gi}}'',
             storageClassName := Some ''fast'', volumeMode := Some ''Filesystem''\<rparr>))"
proof -
  let ?a = "Mapping.of_alist [(''pv.kubernetes.io/bound-by-controller'', ''yes''), (''team'', ''infra'')]"
  have src: "metaAnnotations (pvc_metadata (ctx_pvc ctx_data)) = Some ?a"
    by (simp add: ctx_data_def claim_data_def metaAnnotations_def)
  have sp0: "pvc_spec (ctx_pvc ctx_data) = Some (emptySpec\<lparr>accessModes := Some [''ReadWriteOnce''],
        resources := Some ''{requests:{storage:1Gi}}'',
        storageClassName := Some ''standard'', volumeMode := Some ''Filesystem'',
        volumeName := Some ''pv-1''\<rparr>)"
    by (simp add: ctx_data_def claim_data_def)
  have src': "metaName (pvc_metadata (ctx_pvc ctx_data)) = Some ''data''"
    "metaNamespace (pvc_metadata (ctx_pvc ctx_data)) = Some ''default''"
    "metaLabels (pvc_metadata (ctx_pvc ctx_data)) = Some (Mapping.of_alist [(''app'', ''db'')])"
    "newStorageClassName ctx_data = ''fast''"
    by (simp_all add: ctx_data_def claim_data_def metaName_def metaNamespace_def metaLabels_def)
  from replacement_claim_frame [OF src, of "start no_script" scripted 0]
  obtain b sp' e where b: "replacementClaim ctx_data = Inr b"
    and ev: "newEvents (start no_script) (snd (step3_run scripted ctx_data 0 (start no_script))) =
          [Call (CreateNamespacedPersistentVolumeClaim (metaNamespace (pvc_metadata (ctx_pvc ctx_data))) b) e]"
    and md: "metaName (pvc_metadata b) = metaName (pvc_metadata (ctx_pvc ctx_data))"
      "metaNamespace (pvc_metadata b) = metaNamespace (pvc_metadata (ctx_pvc ctx_data))"
      "metaLabels (pvc_metadata b) = metaLabels (pvc_metadata (ctx_pvc ctx_data))"
    and sp: "pvc_spec b = Some sp'"
    and fr: "\<forall>sp. pvc_spec (ctx_pvc ctx_data) = Some sp \<longrightarrow>
          sp' = sp\<lparr>storageClassName := Some (newStorageClassName ctx_data), volumeName := None\<rparr>"
    by blast
  from fr sp0 src' have sp': "sp' = emptySpec\<lparr>accessModes := Some [''ReadWriteOnce''],
             resources := Some ''{requests:{storage:1Gi}}'',
             storageClassName := Some ''fast'', volumeMode := Some ''Filesystem''\<rparr>"
    by (simp add: emptySpec_def)
  have "e = None"
    using ev b by (simp add: step3_run_def run_defs newEvents_def)
  with src b ev md sp sp' src' show ?thesis by simp
qed

text \<open>
  Claim C9.  When the source claim has no annotations map (or no metadata at all), the
  action of step 3 throws a \<open>TypeError\<close> before any request is sent: the state is
  unchanged.  Run from the sequencer with the operator's consent, step 3 is reported as
  failed and the handler returns \<open>false\<close>; no claim is created.
\<close>

theorem step3_without_annotations:
  assumes "metaAnnotations (pvc_metadata (ctx_pvc ctx)) = None"
  shows "step3_run cl ctx n s = (Thrown TypeError, s)
    \<and> (\<forall>w'. questionAsync cl confirmPrompt (world s) = (''Y'', w') \<longrightarrow>
         run_steps cl n 2 (drop 2 (steps cl ctx)) s =
           (Returned (Some RetFalse),
            s\<lparr>world := w',
              trace := trace s @
                [Out (ReadyToRun 3 (description (steps cl ctx ! 2))), Input confirmPrompt ''Y'',
                 Invoke 2, Out (StepFailed 3 None)]\<rparr>))"
proof -
  have thrown: "step3_run cl ctx n t = (Thrown TypeError, t)" for t :: "'a state"
    using assms by (simp add: step3_run_def replacementClaim_def)
  have "run_steps cl n 2 (drop 2 (steps cl ctx)) s =
           (Returned (Some RetFalse),
            s\<lparr>world := w',
              trace := trace s @
                [Out (ReadyToRun 3 (description (steps cl ctx ! 2))), Input confirmPrompt ''Y'',
                 Invoke 2, Out (StepFailed 3 None)]\<rparr>)"
    if "questionAsync cl confirmPrompt (world s) = (''Y'', w')" for w'
    using that
    by (simp add: steps_def thrown input_line_def output_text_def emit_def errorDetail_def)
  with thrown show ?thesis by blast
qed

theorem step3_without_annotations_witness:
  "metaAnnotations (pvc_metadata (ctx_pvc (ctx_data\<lparr>ctx_pvc := no_annotations\<rparr>))) = None
   \<and> step3_run scripted (ctx_data\<lparr>ctx_pvc := no_annotations\<rparr>) 0 (start (no_script\<lparr>answers := [''Y'']\<rparr>))
       = (Thrown TypeError, start (no_script\<lparr>answers := [''Y'']\<rparr>))
   \<and> questionAsync scripted confirmPrompt (world (start (no_script\<lparr>answers := [''Y'']\<rparr>))) = (''Y'', no_script)
   \<and> fst (run_steps scripted 0 2 (drop 2 (steps scripted (ctx_data\<lparr>ctx_pvc := no_annotations\<rparr>)))
        (start (no_script\<lparr>answers := [''Y'']\<rparr>))) = Returned (Some RetFalse)
   \<and> trace (snd (run_steps scripted 0 2 (drop 2 (steps scripted (ctx_data\<lparr>ctx_pvc := no_annotations\<rparr>)))
        (start (no_script\<lparr>answers := [''Y'']\<rparr>)))) =
       [Out (ReadyToRun 3 (description (steps scripted (ctx_data\<lparr>ctx_pvc := no_annotations\<rparr>) ! 2))),
        Input confirmPrompt ''Y'', Invoke 2, Out (StepFailed 3 None)]"
proof -
  let ?ctx = "ctx_data\<lparr>ctx_pvc := no_annotations\<rparr>"
  let ?s = "start (no_script\<lparr>answers := [''Y'']\<rparr>)"
  have src: "metaAnnotations (pvc_metadata (ctx_pvc ?ctx)) = None"
    by (simp add: no_annotations_def metaAnnotations_def)
  have q: "questionAsync scripted confirmPrompt (world ?s) = (''Y'', no_script)"
    by (simp add: scripted_def start_def no_script_def)
  have t0: "trace ?s = []" by (simp add: start_def)
  from step3_without_annotations [OF src, of scripted 0 ?s] q t0 src show ?thesis
    by simp
qed

section \<open>Step actions only add their own events\<close>

lemma extends_refl: "extends s s"
  by (simp add: extends_def)

lemma extends_trans: "extends s t \<Longrightarrow> extends t u \<Longrightarrow> extends s u"
  by (fastforce simp: extends_def)

lemma extends_api: "extends s (snd (api c f s))"
  by (cases "f (world s)") (simp add: api_def extends_def actionEvent_def)

lemma extends_api': "api c f s = (r, s') \<Longrightarrow> extends s s'"
  using extends_api [of s c f] by simp

lemma extends_emit: "extends s t \<Longrightarrow> actionEvent e \<Longrightarrow> extends s (emit e t)"
  by (auto simp: emit_def extends_def)

lemma extends_pods: "extends s t \<Longrightarrow> extends s (t\<lparr>pods := ps\<rparr>)"
  by (simp add: extends_def)

lemma extends_getPods: "getPodsMountingPVC cl nm ns s = (r, s') \<Longrightarrow> extends s s'"
  by (auto simp: getPodsMountingPVC_def split: prod.splits sum.splits dest: extends_api')

lemma extends_deletion_wait: "extends s (snd (deletion_wait cl ctx n s))"
proof (induction n arbitrary: s)
  case 0
  show ?case by (simp add: extends_refl)
next
  case (Suc n)
  obtain l s1 where g: "getPodsMountingPVC cl (pvcName ctx) (namespaceName ctx) s = (l, s1)"
    by (cases "getPodsMountingPVC cl (pvcName ctx) (namespaceName ctx) s")
  then have e1: "extends s s1" by (rule extends_getPods)
  show ?case
  proof (cases l)
    case (Inl e)
    with g e1 show ?thesis by simp
  next
    case (Inr ps)
    let ?s2 = "output_text (WaitingDeletion (podNames ps))
       (emit (CursorTo 0) (emit (ClearLine 0) (s1\<lparr>pods := ps\<rparr>)))"
    have e2: "extends s ?s2"
      unfolding output_text_def
      by (intro extends_emit extends_pods e1) (simp_all add: actionEvent_def)
    obtain r s3 where rd: "readClaim cl (claimName_of ctx) (claimNamespace ctx) ?s2 = (r, s3)"
      by (cases "readClaim cl (claimName_of ctx) (claimNamespace ctx) ?s2")
    then have e3: "extends s s3" using e2 extends_api' extends_trans by blast
    have e4: "extends s (emit (Sleep 1000) s3)"
      by (rule extends_emit [OF e3]) (simp add: actionEvent_def)
    have rec: "extends s (snd (deletion_wait cl ctx n (emit (Sleep 1000) s3)))"
      by (rule extends_trans [OF e4 Suc.IH])
    from g Inr rd e3 rec show ?thesis
      by (cases r) simp_all
  qed
qed

lemma extends_job_wait: "extends s (snd (job_wait cl ctx n s))"
proof (induction n arbitrary: s)
  case 0
  show ?case by (simp add: extends_refl)
next
  case (Suc n)
  obtain r s1 where rd: "readJobStatus cl (copyDataName ctx) (claimNamespace ctx) s = (r, s1)"
    by (cases "readJobStatus cl (copyDataName ctx) (claimNamespace ctx) s")
  then have e1: "extends s s1" by (rule extends_api')
  let ?s2 = "emit (Sleep 1000) (output_text (WaitingJob (copyDataName ctx))
       (emit (CursorTo 0) (emit (ClearLine 0) s1)))"
  have e2: "extends s ?s2"
    unfolding output_text_def
    by (intro extends_emit e1) (simp_all add: actionEvent_def)
  have rec: "extends s (snd (job_wait cl ctx n ?s2))"
    by (rule extends_trans [OF e2 Suc.IH])
  from rd e1 rec show ?case
    by (cases r) simp_all
qed

lemma extends_newline: "extends s t \<Longrightarrow> extends s (output_text Newline t)"
  unfolding output_text_def
  by (erule extends_emit) (simp add: actionEvent_def)

lemma extends_step1: "extends s (snd (step1_run cl ctx n s))"
  by (auto simp: step1_run_def split: prod.splits sum.splits dest: extends_api')

lemma extends_step2: "extends s (snd (step2_run cl ctx n s))"
proof -
  obtain r s1 where d: "deleteClaim cl (claimName_of ctx) (claimNamespace ctx) s = (r, s1)"
    by (cases "deleteClaim cl (claimName_of ctx) (claimNamespace ctx) s")
  then have e1: "extends s s1" by (rule extends_api')
  have e2: "extends s (snd (deletion_wait cl ctx n s1))"
    by (rule extends_trans [OF e1 extends_deletion_wait])
  obtain o' s2 where w: "deletion_wait cl ctx n s1 = (o', s2)"
    by (cases "deletion_wait cl ctx n s1")
  with e2 have "extends s s2" by simp
  with d e1 w show ?thesis
    by (cases r; cases o') (simp_all add: step2_run_def extends_newline)
qed

lemma extends_step3: "extends s (snd (step3_run cl ctx n s))"
  by (auto simp: step3_run_def extends_refl split: prod.splits sum.splits dest: extends_api')

lemma extends_step4: "extends s (snd (step4_run cl ctx n s))"
proof -
  obtain r s1 where p: "patchVolume cl (volumeName_of ctx) [Remove ''/spec/claimRef''] s = (r, s1)"
    by (cases "patchVolume cl (volumeName_of ctx) [Remove ''/spec/claimRef''] s")
  then have e1: "extends s s1" by (rule extends_api')
  obtain r' s2 where c: "createClaim cl (claimNamespace ctx) (temporaryClaim ctx) s1 = (r', s2)"
    by (cases "createClaim cl (claimNamespace ctx) (temporaryClaim ctx) s1")
  then have "extends s1 s2" by (rule extends_api')
  with e1 have e2: "extends s s2" by (rule extends_trans)
  from p c e1 e2 show ?thesis
    by (cases r; cases r') (simp_all add: step4_run_def)
qed

lemma extends_step5: "extends s (snd (step5_run cl ctx n s))"
proof -
  obtain r s1 where d: "createJob cl (claimNamespace ctx) (copyJob ctx) s = (r, s1)"
    by (cases "createJob cl (claimNamespace ctx) (copyJob ctx) s")
  then have e1: "extends s s1" by (rule extends_api')
  have e2: "extends s (snd (job_wait cl ctx n s1))"
    by (rule extends_trans [OF e1 extends_job_wait])
  obtain o' s2 where w: "job_wait cl ctx n s1 = (o', s2)"
    by (cases "job_wait cl ctx n s1")
  with e2 have "extends s s2" by simp
  with d e1 w show ?thesis
    by (cases r; cases o') (simp_all add: step5_run_def extends_newline)
qed

lemma extends_step6: "extends s (snd (step6_run cl ctx n s))"
  by (auto simp: step6_run_def split: prod.splits sum.splits dest: extends_api')

lemma well_behavedI: "(\<And>n s. extends s (snd (f n s))) \<Longrightarrow> well_behaved \<lparr>description = d, run = f\<rparr>"
  by (simp add: well_behaved_def extends_def)

lemma steps_well_behaved: "st \<in> set (steps cl ctx) \<Longrightarrow> well_behaved st"
  unfolding steps_def set_simps insert_iff empty_iff
  by (elim disjE; simp only: ; intro well_behavedI extends_step1 extends_step2 extends_step3
      extends_step4 extends_step5 extends_step6)

section \<open>The shape of the step loop\<close>

lemma action_not_sequencing: "actionEvent e \<Longrightarrow> \<not> isSequencing e"
  by (auto simp: actionEvent_def isSequencing_def split: event.splits message.splits)

lemma action_not_declined: "actionEvent e \<Longrightarrow> \<not> declined e"
  by (auto simp: actionEvent_def declined_def split: event.splits)

lemma sequencing_actions: "\<forall>e\<in>set evs. actionEvent e \<Longrightarrow> sequencing evs = []"
  by (simp add: sequencing_def action_not_sequencing)

lemma sequencing_append: "sequencing (xs @ ys) = sequencing xs @ sequencing ys"
  by (simp add: sequencing_def)

lemma sequencing_simps:
  "sequencing [] = []"
  "sequencing (Out (ReadyToRun k d) # es) = sequencing es"
  "sequencing (Input p a # es) = Input p a # sequencing es"
  "sequencing (Invoke i # es) = Invoke i # sequencing es"
  "sequencing (Out (StepSuccessful k) # es) = Out (StepSuccessful k) # sequencing es"
  "sequencing (Out (StepFailed k b) # es) = Out (StepFailed k b) # sequencing es"
  by (simp_all add: sequencing_def isSequencing_def)

lemma stops_at_append:
  assumes "\<forall>e\<in>set xs. \<not> P e" and "stops_at P ys"
  shows "stops_at P (xs @ ys)"
  unfolding stops_at_def
proof (intro allI impI)
  fix pre e post
  assume a: "xs @ ys = pre @ e # post \<and> P e"
  then have eq: "xs @ ys = pre @ e # post" and p: "P e" by simp_all
  from eq obtain us where "(xs = pre @ us \<and> us @ ys = e # post) \<or> (xs @ us = pre \<and> ys = us @ e # post)"
    by (auto simp: append_eq_append_conv2)
  then show "post = []"
  proof
    assume c: "xs = pre @ us \<and> us @ ys = e # post"
    have "us = []"
    proof (cases us)
      case Nil
      then show ?thesis .
    next
      case (Cons u us')
      with c have "e \<in> set xs" by auto
      with assms(1) p show ?thesis by blast
    qed
    with c have "ys = [] @ e # post" by simp
    with assms(2) p show ?thesis unfolding stops_at_def by blast
  next
    assume "xs @ us = pre \<and> ys = us @ e # post"
    with assms(2) p show ?thesis unfolding stops_at_def by blast
  qed
qed

lemma stops_at_none: "\<forall>e\<in>set xs. \<not> P e \<Longrightarrow> stops_at P xs"
  using stops_at_append [of xs P "[]"] by (simp add: stops_at_def)

lemma stops_at_last: "\<forall>e\<in>set xs. \<not> P e \<Longrightarrow> stops_at P (xs @ [x])"
  by (rule stops_at_append) (auto simp: stops_at_def Cons_eq_append_conv)

lemma input_line_eq:
  assumes "questionAsync cl p (world s) = (a, w')"
  shows "input_line cl p (output_text m s) = (a, s\<lparr>world := w', trace := trace s @ [Out m, Input p a]\<rparr>)"
  using assms by (simp add: input_line_def output_text_def emit_def)

lemma skeleton_declined:
  "a \<noteq> ''Y'' \<Longrightarrow> sequencing evs = [Input confirmPrompt a] \<Longrightarrow>
     skeleton i (Suc m) (Returned (Some RetUndefined)) evs"
  unfolding skeleton_def by (rule exI [of _ 0], rule exI [of _ "[Input confirmPrompt a]"]) simp

lemma skeleton_failed:
  "sequencing evs = [Input confirmPrompt ''Y'', Invoke i, Out (StepFailed (i + 1) b)] \<Longrightarrow>
     skeleton i (Suc m) (Returned (Some RetFalse)) evs"
  unfolding skeleton_def
  by (rule exI [of _ 0], rule exI [of _ "[Input confirmPrompt ''Y'', Invoke i, Out (StepFailed (i + 1) b)]"]) simp

lemma skeleton_fuel:
  "sequencing evs = [Input confirmPrompt ''Y'', Invoke i] \<Longrightarrow> skeleton i (Suc m) OutOfFuel evs"
  unfolding skeleton_def
  by (rule exI [of _ 0], rule exI [of _ "[Input confirmPrompt ''Y'', Invoke i]"]) simp

lemma skeleton_next:
  assumes "skeleton (Suc i) m out evs'" and "sequencing evs = goodRound i @ sequencing evs'"
  shows "skeleton i (Suc m) out evs"
proof -
  from assms(1) obtain k tail where k: "k \<le> m"
    and sq: "sequencing evs' = concat (map goodRound [Suc i..<Suc i + k]) @ tail"
    and cs: "(tail = [] \<and> k = m \<and> out = Returned None)
         \<or> (k < m \<and> (\<exists>a. a \<noteq> ''Y'' \<and> tail = [Input confirmPrompt a])
              \<and> out = Returned (Some RetUndefined))
         \<or> (k < m \<and> (\<exists>b. tail = [Input confirmPrompt ''Y'', Invoke (Suc i + k),
                                   Out (StepFailed (Suc i + k + 1) b)])
              \<and> out = Returned (Some RetFalse))
         \<or> (k < m \<and> tail = [Input confirmPrompt ''Y'', Invoke (Suc i + k)] \<and> out = OutOfFuel)"
    unfolding skeleton_def by blast
  have up: "[i..<i + Suc k] = i # [Suc i..<Suc i + k]"
    by (simp add: upt_conv_Cons)
  have sq': "sequencing evs = concat (map goodRound [i..<i + Suc k]) @ tail"
    by (simp only: up assms(2) sq) simp
  show ?thesis
    unfolding skeleton_def
    apply (rule exI [of _ "Suc k"], rule exI [of _ tail])
    using k sq' cs by auto
qed

lemma run_steps_shape:
  assumes "\<forall>st\<in>set sts. well_behaved st"
  shows "\<exists>evs. trace (snd (run_steps cl n i sts s)) = trace s @ evs
     \<and> shaped i (length sts) (fst (run_steps cl n i sts s)) evs"
  using assms
proof (induction sts arbitrary: i s)
  case Nil
  have "shaped i 0 (Returned None) []"
    by (simp add: shaped_def skeleton_def stops_at_def sequencing_simps)
  then show ?case by simp
next
  case (Cons st rest)
  let ?ready = "Out (ReadyToRun (i + 1) (description st))"
  obtain a w' where q: "questionAsync cl confirmPrompt (world s) = (a, w')"
    by (cases "questionAsync cl confirmPrompt (world s)")
  let ?s1 = "s\<lparr>world := w', trace := trace s @ [?ready, Input confirmPrompt a]\<rparr>"
  note inp = input_line_eq [OF q]
  show ?case
  proof (cases "a = ''Y''")
    case False
    have run: "run_steps cl n i (st # rest) s = (Returned (Some RetUndefined), ?s1)"
      using False by (simp add: inp)
    have "shaped i (length (st # rest)) (Returned (Some RetUndefined)) [?ready, Input confirmPrompt a]"
      unfolding shaped_def
    proof (intro conjI)
      show "skeleton i (length (st # rest)) (Returned (Some RetUndefined)) [?ready, Input confirmPrompt a]"
        using skeleton_declined [OF False, of "[?ready, Input confirmPrompt a]" i "length rest"]
        by (simp add: sequencing_simps)
      show "stops_at declined [?ready, Input confirmPrompt a]"
        using stops_at_last [of "[?ready]" declined "Input confirmPrompt a"]
        by (simp add: declined_def)
      show "Returned (Some RetUndefined) = Returned None \<longrightarrow>
          (\<forall>e\<in>set [?ready, Input confirmPrompt a]. \<not> declined e)"
        by simp
    qed
    with run show ?thesis by simp
  next
    case True
    let ?s2 = "emit (Invoke i) ?s1"
    let ?pre = "[?ready, Input confirmPrompt ''Y'', Invoke i]"
    obtain out s3 where act: "run st n ?s2 = (out, s3)"
      by (cases "run st n ?s2")
    from Cons.prems have "well_behaved st" by simp
    then obtain sevs where sevs: "trace (snd (run st n ?s2)) = trace ?s2 @ sevs"
      and quiet: "\<forall>e\<in>set sevs. actionEvent e"
      unfolding well_behaved_def by blast
    from sevs act True have t3: "trace s3 = trace s @ ?pre @ sevs"
      by (simp add: emit_def)
    have sq: "sequencing (?pre @ sevs) = [Input confirmPrompt ''Y'', Invoke i]"
      by (simp add: sequencing_append sequencing_simps sequencing_actions [OF quiet])
    have nd: "\<forall>e\<in>set (?pre @ sevs). \<not> declined e"
    proof
      fix e assume "e \<in> set (?pre @ sevs)"
      then consider "e \<in> set ?pre" | "e \<in> set sevs" by auto
      then show "\<not> declined e"
      proof cases
        case 1
        then show ?thesis by (auto simp: declined_def)
      next
        case 2
        with quiet show ?thesis by (blast dest: action_not_declined)
      qed
    qed
    have unfolded: "run_steps cl n i (st # rest) s =
       (case out of
          Returned successful \<Rightarrow>
            if successful
            then run_steps cl n (i + 1) rest (output_text (StepSuccessful (i + 1)) s3)
            else (Returned (Some RetFalse), output_text (StepFailed (i + 1) None) s3)
        | Thrown e \<Rightarrow> (Returned (Some RetFalse), output_text (StepFailed (i + 1) (errorDetail e)) s3)
        | OutOfFuel \<Rightarrow> (OutOfFuel, s3))"
      using True act by (simp add: inp)
    have failed: "shaped i (length (st # rest)) (Returned (Some RetFalse))
        ((?pre @ sevs) @ [Out (StepFailed (i + 1) b)])" for b
      unfolding shaped_def
    proof (intro conjI)
      show "skeleton i (length (st # rest)) (Returned (Some RetFalse))
          ((?pre @ sevs) @ [Out (StepFailed (i + 1) b)])"
        using skeleton_failed [of "(?pre @ sevs) @ [Out (StepFailed (i + 1) b)]" i b "length rest"] sq
        by (simp only: sequencing_append [of "?pre @ sevs"] sequencing_simps) simp
      show "stops_at declined ((?pre @ sevs) @ [Out (StepFailed (i + 1) b)])"
        by (rule stops_at_last [OF nd])
      show "Returned (Some RetFalse) = Returned None \<longrightarrow>
          (\<forall>e\<in>set ((?pre @ sevs) @ [Out (StepFailed (i + 1) b)]). \<not> declined e)"
        by simp
    qed
    show ?thesis
    proof (cases out)
      case (Returned successful)
      show ?thesis
      proof (cases successful)
        case True
        let ?s4 = "output_text (StepSuccessful (i + 1)) s3"
        let ?xs = "(?pre @ sevs) @ [Out (StepSuccessful (i + 1))]"
        from Cons.prems have "\<forall>st\<in>set rest. well_behaved st" by simp
        from Cons.IH [OF this, of "Suc i" ?s4]
        obtain evs' where tr': "trace (snd (run_steps cl n (Suc i) rest ?s4)) = trace ?s4 @ evs'"
          and sh': "shaped (Suc i) (length rest) (fst (run_steps cl n (Suc i) rest ?s4)) evs'"
          by blast
        let ?out = "fst (run_steps cl n (Suc i) rest ?s4)"
        have run: "run_steps cl n i (st # rest) s = run_steps cl n (Suc i) rest ?s4"
          using unfolded Returned True by simp
        have t4: "trace ?s4 = trace s @ ?xs"
          by (simp add: t3 output_text_def emit_def)
        have "trace (snd (run_steps cl n i (st # rest) s)) = trace ?s4 @ evs'"
          by (simp only: run tr')
        then have tr: "trace (snd (run_steps cl n i (st # rest) s)) = trace s @ ?xs @ evs'"
          by (simp only: t4 append_assoc)
        have ndx: "\<forall>e\<in>set ?xs. \<not> declined e"
          using nd by (auto simp: declined_def)
        have sqx: "sequencing (?xs @ evs') = goodRound i @ sequencing evs'"
          using sq
          by (simp only: sequencing_append [of ?xs] sequencing_append [of "?pre @ sevs"] sequencing_simps)
            (simp add: goodRound_def)
        have "shaped i (length (st # rest)) ?out (?xs @ evs')"
          unfolding shaped_def
        proof (intro conjI)
          from sh' have "skeleton (Suc i) (length rest) ?out evs'" by (simp add: shaped_def)
          from skeleton_next [OF this sqx]
          show "skeleton i (length (st # rest)) ?out (?xs @ evs')" by simp
          from sh' have "stops_at declined evs'" by (simp add: shaped_def)
          with ndx show "stops_at declined (?xs @ evs')" by (rule stops_at_append)
          from sh' ndx show "?out = Returned None \<longrightarrow> (\<forall>e\<in>set (?xs @ evs'). \<not> declined e)"
            unfolding shaped_def by (metis Un_iff set_append)
        qed
        with tr run show ?thesis by (metis (no_types, lifting))
      next
        case False
        with unfolded Returned
        have run: "run_steps cl n i (st # rest) s =
           (Returned (Some RetFalse), output_text (StepFailed (i + 1) None) s3)" by simp
        have "trace (output_text (StepFailed (i + 1) None) s3) =
           trace s @ (?pre @ sevs) @ [Out (StepFailed (i + 1) None)]"
          by (simp add: t3 output_text_def emit_def)
        with run failed [of None] show ?thesis by (metis fst_conv snd_conv)
      qed
    next
      case (Thrown e)
      with unfolded
      have run: "run_steps cl n i (st # rest) s =
         (Returned (Some RetFalse), output_text (StepFailed (i + 1) (errorDetail e)) s3)" by simp
      have "trace (output_text (StepFailed (i + 1) (errorDetail e)) s3) =
         trace s @ (?pre @ sevs) @ [Out (StepFailed (i + 1) (errorDetail e))]"
        by (simp add: t3 output_text_def emit_def)
      with run failed [of "errorDetail e"] show ?thesis by (metis fst_conv snd_conv)
    next
      case OutOfFuel
      with unfolded have run: "run_steps cl n i (st # rest) s = (OutOfFuel, s3)" by simp
      have "shaped i (length (st # rest)) OutOfFuel (?pre @ sevs)"
        unfolding shaped_def
      proof (intro conjI)
        show "skeleton i (length (st # rest)) OutOfFuel (?pre @ sevs)"
          using skeleton_fuel [OF sq, of "length rest"] by simp
        show "stops_at declined (?pre @ sevs)" by (rule stops_at_none [OF nd])
        show "OutOfFuel = Returned None \<longrightarrow> (\<forall>e\<in>set (?pre @ sevs). \<not> declined e)" by simp
      qed
      with run t3 show ?thesis by (metis fst_conv snd_conv)
    qed
  qed
qed

section \<open>The shape of a whole run\<close>

lemma calm_api: "calm s \<Longrightarrow> api c f s = (r, s') \<Longrightarrow> calm s'"
  by (cases "f (world s)") (auto simp: api_def calm_def isSequencing_def)

lemma calm_output: "calm s \<Longrightarrow> \<not> isSequencing (Out m) \<Longrightarrow> calm (output_text m s)"
  by (simp add: calm_def output_text_def emit_def)

lemma calm_pods: "calm s \<Longrightarrow> calm (s\<lparr>pods := ps\<rparr>)"
  by (simp add: calm_def)

lemma calm_getPods: "calm s \<Longrightarrow> getPodsMountingPVC cl nm ns s = (r, s') \<Longrightarrow> calm s'"
  by (auto simp: getPodsMountingPVC_def split: prod.splits sum.splits dest: calm_api)

lemma calm_getPV: "calm s \<Longrightarrow> getPVForPVC cl pvc s = (r, s') \<Longrightarrow> calm s'"
  by (auto simp: getPVForPVC_def split: prod.splits sum.splits dest: calm_api)

lemma calm_list_steps: "calm s \<Longrightarrow> calm (list_steps i sts s)"
  by (induction sts arbitrary: i s) (simp_all add: calm_output isSequencing_def)

lemma handler_cases:
  "calm (snd (handler cl n ns sc nm rid w))
   \<or> (\<exists>ctx s6. calm s6 \<and> handler cl n ns sc nm rid w = finish (run_steps cl n 0 (steps cl ctx) s6))"
proof -
  let ?s0 = "output_text GatheringInfo \<lparr>world = w, trace = [], pods = []\<rparr>"
  have c0: "calm ?s0" by (simp add: calm_def output_text_def emit_def isSequencing_def)
  obtain r1 s1 where a1: "readClaim cl (Some nm) (Some ns) ?s0 = (r1, s1)"
    by (cases "readClaim cl (Some nm) (Some ns) ?s0")
  from calm_api [OF c0 a1] have c1: "calm s1" .
  show ?thesis
  proof (cases r1)
    case (Inl e)
    with a1 c1 show ?thesis by (simp add: handler_def)
  next
    case pvc: (Inr pvc)
    obtain r2 s2 where a2: "getPVForPVC cl pvc s1 = (r2, s2)" by (cases "getPVForPVC cl pvc s1")
    from calm_getPV [OF c1 a2] have c2: "calm s2" .
    show ?thesis
    proof (cases r2)
      case (Inl e)
      with a1 pvc a2 c2 show ?thesis by (simp add: handler_def)
    next
      case pv: (Inr pv)
      obtain r3 s3 where a3: "getPodsMountingPVC cl nm ns s2 = (r3, s3)"
        by (cases "getPodsMountingPVC cl nm ns s2")
      from calm_getPods [OF c2 a3] have c3: "calm s3" .
      show ?thesis
      proof (cases r3)
        case (Inl e)
        with a1 pvc a2 pv a3 c3 show ?thesis by (simp add: handler_def)
      next
        case ps: (Inr ps)
        let ?s4 = "output_text Newline (output_text Done (s3\<lparr>pods := ps\<rparr>))"
        have c4: "calm ?s4"
          by (intro calm_output calm_pods c3) (simp_all add: isSequencing_def)
        show ?thesis
        proof (cases pv)
          case None
          with a1 pvc a2 pv a3 ps c4 show ?thesis by (simp add: handler_def)
        next
          case (Some v)
          let ?ctx = "\<lparr>pvcName = nm, namespaceName = ns, newStorageClassName = sc,
                                     runID = rid, ctx_pvc = pvc, ctx_pv = v\<rparr>"
          let ?s5 = "output_text Newline
                                     (output_text (Found (metaName (pvc_metadata pvc))
                                        (metaName (pv_metadata v)) (podNames ps))
                                       (output_text HeresWhatWeFound ?s4))"
          let ?s6 = "output_text Newline
                                     (list_steps 0 (steps cl ?ctx) (output_text IfYouApprove ?s5))"
          have c6: "calm ?s6"
            by (intro calm_output calm_list_steps c4) (simp_all add: isSequencing_def)
          have "handler cl n ns sc nm rid w = finish (run_steps cl n 0 (steps cl ?ctx) ?s6)"
            using a1 pvc a2 pv a3 ps Some
            by (simp add: handler_def finish_def Let_def del: run_steps.simps)
          with c6 show ?thesis by blast
        qed
      qed
    qed
  qed
qed

lemma declined_sequencing: "declined e \<Longrightarrow> isSequencing e"
  by (auto simp: declined_def isSequencing_def split: event.splits)

lemma calm_sequencing: "calm s \<Longrightarrow> sequencing (trace s) = []"
  by (simp add: calm_def sequencing_def)

lemma calm_no_declined: "calm s \<Longrightarrow> \<forall>e\<in>set (trace s). \<not> declined e"
  using declined_sequencing by (auto simp: calm_def)

lemma steps_length: "length (steps cl ctx) = 6"
  by (simp add: steps_def)

lemma finish_simps:
  "finish (Returned None, s7) = (Returned RetUndefined, output_text Finished (output_text Newline s7))"
  "finish (Returned (Some r), s7) = (Returned r, s7)"
  "finish (Thrown e, s7) = (Thrown e, s7)"
  "finish (OutOfFuel, s7) = (OutOfFuel, s7)"
  by (simp_all add: finish_def)

lemma run_shape_plan:
  assumes "calm s6"
    and "run_steps cl n 0 (steps cl ctx) s6 = (o7, s7)"
    and "finish (o7, s7) = (out, s')"
  shows "(\<exists>k tail. run_shape out (trace s') k tail) \<and> stops_at declined (trace s')"
proof -
  have wb: "\<forall>st\<in>set (steps cl ctx). well_behaved st"
    using steps_well_behaved by blast
  from run_steps_shape [OF wb, of cl n 0 s6] assms(2)
  obtain evs where tr7: "trace s7 = trace s6 @ evs" and sh: "shaped 0 6 o7 evs"
    by (auto simp only: steps_length fst_conv snd_conv)
  from sh have sk: "skeleton 0 6 o7 evs" and st: "stops_at declined evs"
    and nd: "o7 = Returned None \<longrightarrow> (\<forall>e\<in>set evs. \<not> declined e)"
    unfolding shaped_def by blast+
  from sk obtain k tail where k: "k \<le> 6"
    and sq: "sequencing evs = concat (map goodRound [0..<k]) @ tail"
    and cs: "(tail = [] \<and> k = 6 \<and> o7 = Returned None)
         \<or> (k < 6 \<and> (\<exists>a. a \<noteq> ''Y'' \<and> tail = [Input confirmPrompt a])
              \<and> o7 = Returned (Some RetUndefined))
         \<or> (k < 6 \<and> (\<exists>b. tail = [Input confirmPrompt ''Y'', Invoke (0 + k),
                                   Out (StepFailed (0 + k + 1) b)])
              \<and> o7 = Returned (Some RetFalse))
         \<or> (k < 6 \<and> tail = [Input confirmPrompt ''Y'', Invoke (0 + k)] \<and> o7 = OutOfFuel)"
    unfolding skeleton_def add_0 by blast
  have sq6: "sequencing (trace s6 @ evs) = concat (map goodRound [0..<k]) @ tail"
    by (simp only: sequencing_append calm_sequencing [OF assms(1)] sq append_Nil)
  have st6: "stops_at declined (trace s6 @ evs)"
    by (rule stops_at_append [OF calm_no_declined [OF assms(1)] st])
  from cs show ?thesis
  proof (elim disjE conjE exE)
    assume tl: "tail = []" and o7: "o7 = Returned None"
    from assms(3) o7 have o: "out = Returned RetUndefined"
      and s': "trace s' = (trace s6 @ evs) @ [Out Newline, Out Finished]"
      by (auto simp: finish_simps output_text_def emit_def tr7)
    have "sequencing [Out Newline, Out Finished] = []"
      by (simp add: sequencing_def isSequencing_def)
    then have "sequencing (trace s') = concat (map goodRound [0..<k]) @ tail"
      by (simp only: s' sequencing_append [of "trace s6 @ evs"] sq6 append_Nil2)
    with k tl have rs: "run_shape out (trace s') k tail" by (simp add: run_shape_def)
    from nd o7 have "\<forall>e\<in>set evs. \<not> declined e" by simp
    with calm_no_declined [OF assms(1)]
    have "\<forall>e\<in>set (trace s'). \<not> declined e"
      unfolding s' by (auto simp: declined_def)
    then have "stops_at declined (trace s')" by (rule stops_at_none)
    with rs show ?thesis by blast
  next
    fix a
    assume k6: "k < 6" and a: "a \<noteq> ''Y''" and tl: "tail = [Input confirmPrompt a]"
      and o7: "o7 = Returned (Some RetUndefined)"
    from assms(3) o7 have o: "out = Returned RetUndefined" and s': "s' = s7"
      by (simp_all add: finish_simps)
    from k sq6 k6 a tl o have "run_shape out (trace s') k tail"
      unfolding run_shape_def s' tr7 by blast
    with st6 show ?thesis unfolding s' tr7 by blast
  next
    fix b
    assume k6: "k < 6"
      and tl: "tail = [Input confirmPrompt ''Y'', Invoke (0 + k), Out (StepFailed (0 + k + 1) b)]"
      and o7: "o7 = Returned (Some RetFalse)"
    from assms(3) o7 have o: "out = Returned RetFalse" and s': "s' = s7"
      by (simp_all add: finish_simps)
    from tl have tl': "tail = [Input confirmPrompt ''Y'', Invoke k, Out (StepFailed (k + 1) b)]"
      by simp
    from k sq6 k6 tl' o have "run_shape out (trace s') k tail"
      unfolding run_shape_def s' tr7 by blast
    with st6 show ?thesis unfolding s' tr7 by blast
  next
    assume k6: "k < 6" and tl: "tail = [Input confirmPrompt ''Y'', Invoke (0 + k)]"
      and o7: "o7 = OutOfFuel"
    from assms(3) o7 have o: "out = OutOfFuel" and s': "s' = s7"
      by (simp_all add: finish_simps)
    from tl have tl': "tail = [Input confirmPrompt ''Y'', Invoke k]" by simp
    from k sq6 k6 tl' o have "run_shape out (trace s') k tail"
      unfolding run_shape_def s' tr7 by blast
    with st6 show ?thesis unfolding s' tr7 by blast
  qed
qed

lemma handler_shape:
  assumes "handler cl n ns sc nm rid w = (out, s')"
  shows "(\<exists>k tail. run_shape out (trace s') k tail) \<and> stops_at declined (trace s')"
proof -
  from handler_cases [of cl n ns sc nm rid w]
  consider "calm s'"
    | ctx s6 where "calm s6" "finish (run_steps cl n 0 (steps cl ctx) s6) = (out, s')"
    using assms by (metis snd_conv)
  then show ?thesis
  proof cases
    case 1
    then have "run_shape out (trace s') 0 []"
      by (simp add: run_shape_def calm_sequencing)
    moreover from 1 have "stops_at declined (trace s')"
      by (intro stops_at_none calm_no_declined)
    ultimately show ?thesis by blast
  next
    case 2
    obtain o7 s7 where r: "run_steps cl n 0 (steps cl ctx) s6 = (o7, s7)"
      by (cases "run_steps cl n 0 (steps cl ctx) s6")
    from 2(2) have "finish (o7, s7) = (out, s')" by (simp only: r)
    from run_shape_plan [OF 2(1) r this] show ?thesis .
  qed
qed

lemma goodRounds_Invoke:
  "Invoke x \<in> set (concat (map goodRound [i..<j])) \<longleftrightarrow> i \<le> x \<and> x < j"
  by (auto simp: goodRound_def)

lemma goodRounds_Successful:
  "Out (StepSuccessful x) \<in> set (concat (map goodRound [i..<j])) \<longleftrightarrow> (\<exists>y. x = Suc y \<and> i \<le> y \<and> y < j)"
  by (auto simp: goodRound_def)

lemma goodRounds_Failed: "Out (StepFailed x b) \<notin> set (concat (map goodRound [i..<j]))"
  by (auto simp: goodRound_def)

lemma goodRounds_Input:
  "Input p a \<in> set (concat (map goodRound [i..<j])) \<Longrightarrow> a = ''Y''"
  by (auto simp: goodRound_def split: if_splits)

lemma goodRounds_count:
  "filter (\<lambda>e. e = Invoke x) (concat (map goodRound [i..<j])) =
     (if i \<le> x \<and> x < j then [Invoke x] else [])"
  by (induction j) (auto simp: goodRound_def)

lemma in_sequencing: "isSequencing e \<Longrightarrow> e \<in> set tr \<longleftrightarrow> e \<in> set (sequencing tr)"
  by (simp add: sequencing_def)

lemma count_sequencing:
  "isSequencing x \<Longrightarrow> filter (\<lambda>e. e = x) tr = filter (\<lambda>e. e = x) (sequencing tr)"
  by (auto simp: sequencing_def intro: filter_cong)

section \<open>Whole runs on concrete scripts\<close>

lemma job_fails_run:
  "fst (handler scripted 2 ''default'' ''fast'' ''data'' ''r1'' script_job_fails) = Returned RetFalse
   \<and> sequencing (trace (snd (handler scripted 2 ''default'' ''fast'' ''data'' ''r1'' script_job_fails))) =
       [Input confirmPrompt ''Y'', Invoke 0, Out (StepSuccessful 1),
        Input confirmPrompt ''Y'', Invoke 1, Out (StepSuccessful 2),
        Input confirmPrompt ''Y'', Invoke 2, Out (StepSuccessful 3),
        Input confirmPrompt ''Y'', Invoke 3, Out (StepSuccessful 4),
        Input confirmPrompt ''Y'', Invoke 4, Out (StepFailed 5 None)]"
  by (simp add: script_job_fails_def handler_defs run_defs loop_defs numeral_2_eq_2
      sequencing_def isSequencing_def)

lemma declines_run:
  "fst run_declines = Returned RetUndefined
   \<and> trace (snd run_declines) \<noteq> []
   \<and> last (trace (snd run_declines)) = Input confirmPrompt ''y''"
  by (simp add: run_declines_def script_declines_def handler_defs run_defs loop_defs numeral_2_eq_2)

lemma unbound_facts:
  "readNamespacedPersistentVolumeClaim scripted (Some ''data'') (Some ''default'') script_unbound
     = (Inr claim_data, script_unbound\<lparr>claim_reads := []\<rparr>)"
  "listPersistentVolume scripted (script_unbound\<lparr>claim_reads := []\<rparr>)
     = (Inr [other_volume], script_unbound\<lparr>claim_reads := []\<rparr>)"
  "listNamespacedPod scripted ''default'' (script_unbound\<lparr>claim_reads := []\<rparr>)
     = (Inr [], script_unbound\<lparr>claim_reads := []\<rparr>)"
  "isBound other_volume"
  "\<not> refersTo other_volume claim_data"
  by (simp_all add: scripted_def script_unbound_def other_volume_def volume_pv1_def claim_data_def
      isBound_def refersTo_def metaUid_def)

section \<open>The sequencer\<close>

lemma run_steps_consent:
  "\<forall>w' r s3.
          questionAsync cl confirmPrompt (world s) = (''Y'', w')
        \<and> run st n (afterConsent i st w' s) = (r, s3) \<longrightarrow>
          run_steps cl n i (st # rest) s =
            (case r of
               Returned successful \<Rightarrow>
                 if successful
                 then run_steps cl n (i + 1) rest (output_text (StepSuccessful (i + 1)) s3)
                 else (Returned (Some RetFalse), output_text (StepFailed (i + 1) None) s3)
             | Thrown e \<Rightarrow>
                 (Returned (Some RetFalse), output_text (StepFailed (i + 1) (errorDetail e)) s3)
             | OutOfFuel \<Rightarrow> (OutOfFuel, s3))"
proof (intro allI impI)
  fix w' r s3
  assume a: "questionAsync cl confirmPrompt (world s) = (''Y'', w')
        \<and> run st n (afterConsent i st w' s) = (r, s3)"
  then have q: "questionAsync cl confirmPrompt (world s) = (''Y'', w')" by simp
  from a have "run st n (emit (Invoke i)
      (s\<lparr>world := w', trace := trace s @ [Out (ReadyToRun (Suc i) (description st)),
         Input confirmPrompt ''Y'']\<rparr>)) = (r, s3)"
    by (simp add: afterConsent_def emit_def)
  then show "run_steps cl n i (st # rest) s =
            (case r of
               Returned successful \<Rightarrow>
                 if successful
                 then run_steps cl n (i + 1) rest (output_text (StepSuccessful (i + 1)) s3)
                 else (Returned (Some RetFalse), output_text (StepFailed (i + 1) None) s3)
             | Thrown e \<Rightarrow>
                 (Returned (Some RetFalse), output_text (StepFailed (i + 1) (errorDetail e)) s3)
             | OutOfFuel \<Rightarrow> (OutOfFuel, s3))"
    by (simp add: input_line_eq [OF q] split: outcome.splits)
qed

text \<open>
  Claim C2.  First, each round of the loop: once the operator has answered \<open>Y\<close>, the
  action of step \<open>i\<close> runs; if it returns \<open>true\<close> the success line is written and the
  loop goes on with the steps after \<open>i\<close>; if it returns \<open>false\<close> or throws, the
  failure line is written and the handler returns \<open>false\<close> at once, whatever steps
  remain.  Then, for a whole run of the handler: its sequencing events are \<open>k\<close> rounds of
  answer \<open>Y\<close>, invocation of step \<open>j\<close> and success report of step \<open>j\<close>, for
  \<open>j = 0, ..., k - 1\<close> in this order, followed by nothing, or by one declined prompt, or by
  the invocation of step \<open>k\<close> and its failure report, or by the invocation of a step
  \<open>k\<close> that has not returned.  So every step action is invoked at most once, only the six
  steps are invoked, step \<open>i + 1\<close> is invoked only when step \<open>i\<close> was invoked and reported
  successful, and when the failure of a step is reported no later step is invoked.
\<close>

theorem handler_step_sequencing:
  assumes "handler cl n ns sc nm rid w = (out, s')"
  shows "(\<forall>w' r s3.
          questionAsync cl confirmPrompt (world s) = (''Y'', w')
        \<and> run st n (afterConsent i st w' s) = (r, s3) \<longrightarrow>
          run_steps cl n i (st # rest) s =
            (case r of
               Returned successful \<Rightarrow>
                 if successful
                 then run_steps cl n (i + 1) rest (output_text (StepSuccessful (i + 1)) s3)
                 else (Returned (Some RetFalse), output_text (StepFailed (i + 1) None) s3)
             | Thrown e \<Rightarrow>
                 (Returned (Some RetFalse), output_text (StepFailed (i + 1) (errorDetail e)) s3)
             | OutOfFuel \<Rightarrow> (OutOfFuel, s3)))
    \<and> (\<exists>k tail. k \<le> 6
        \<and> sequencing (trace s') = concat (map goodRound [0..<k]) @ tail
        \<and> (tail = []
           \<or> (k < 6 \<and> (\<exists>a. a \<noteq> ''Y'' \<and> tail = [Input confirmPrompt a]) \<and> out = Returned RetUndefined)
           \<or> (k < 6 \<and> (\<exists>b. tail = [Input confirmPrompt ''Y'', Invoke k, Out (StepFailed (k + 1) b)])
                \<and> out = Returned RetFalse)
           \<or> (k < 6 \<and> tail = [Input confirmPrompt ''Y'', Invoke k] \<and> out = OutOfFuel)))
    \<and> (\<forall>i. length (filter (\<lambda>e. e = Invoke i) (trace s')) \<le> 1)
    \<and> (\<forall>i. Invoke i \<in> set (trace s') \<longrightarrow> i < 6)
    \<and> (\<forall>i. Invoke (Suc i) \<in> set (trace s') \<longrightarrow>
          Invoke i \<in> set (trace s') \<and> Out (StepSuccessful (Suc i)) \<in> set (trace s'))
    \<and> (\<forall>j b i. Out (StepFailed (Suc j) b) \<in> set (trace s') \<and> Invoke i \<in> set (trace s') \<longrightarrow> i \<le> j)"
proof -
  from handler_shape [OF assms] obtain k tail where rs: "run_shape out (trace s') k tail"
    by blast
  then have k: "k \<le> 6" and sq: "sequencing (trace s') = concat (map goodRound [0..<k]) @ tail"
    and cs: "tail = []
           \<or> (k < 6 \<and> (\<exists>a. a \<noteq> ''Y'' \<and> tail = [Input confirmPrompt a]) \<and> out = Returned RetUndefined)
           \<or> (k < 6 \<and> (\<exists>b. tail = [Input confirmPrompt ''Y'', Invoke k, Out (StepFailed (k + 1) b)])
                \<and> out = Returned RetFalse)
           \<or> (k < 6 \<and> tail = [Input confirmPrompt ''Y'', Invoke k] \<and> out = OutOfFuel)"
    unfolding run_shape_def by blast+
  have inv: "Invoke i \<in> set (trace s') \<longleftrightarrow> i < k \<or> Invoke i \<in> set tail" for i
    using in_sequencing [of "Invoke i" "trace s'"]
    by (simp add: isSequencing_def sq goodRounds_Invoke del: set_concat)
  have suc: "Out (StepSuccessful x) \<in> set (trace s') \<longleftrightarrow>
      (\<exists>y. x = Suc y \<and> y < k) \<or> Out (StepSuccessful x) \<in> set tail" for x
    using in_sequencing [of "Out (StepSuccessful x)" "trace s'"]
    by (simp add: isSequencing_def sq goodRounds_Successful del: set_concat)
  have fl: "Out (StepFailed x b) \<in> set (trace s') \<longleftrightarrow> Out (StepFailed x b) \<in> set tail" for x b
    using in_sequencing [of "Out (StepFailed x b)" "trace s'"]
    by (simp add: isSequencing_def sq goodRounds_Failed del: set_concat)
  have tail_inv: "Invoke i \<in> set tail \<Longrightarrow> i = k \<and> k < 6" for i
    using cs by auto
  have tail_fl: "Out (StepFailed x b) \<in> set tail \<Longrightarrow> x = Suc k" for x b
    using cs by auto
  have cnt: "length (filter (\<lambda>e. e = Invoke i) (trace s')) \<le> 1" for i
  proof -
    have "filter (\<lambda>e. e = Invoke i) (trace s') =
        filter (\<lambda>e. e = Invoke i) (concat (map goodRound [0..<k])) @ filter (\<lambda>e. e = Invoke i) tail"
      by (simp only: count_sequencing [of "Invoke i" "trace s'"] isSequencing_def event.case sq
          filter_append)
    moreover have "filter (\<lambda>e. e = Invoke i) tail = (if i = k \<and> Invoke i \<in> set tail then [Invoke i] else [])"
      using cs by auto
    ultimately show ?thesis
      by (simp add: goodRounds_count del: set_concat)
  qed
  have A: "\<forall>i. length (filter (\<lambda>e. e = Invoke i) (trace s')) \<le> 1"
    using cnt by blast
  have D: "\<forall>i. Invoke i \<in> set (trace s') \<longrightarrow> i < 6"
    using inv tail_inv k by fastforce
  have B: "\<forall>i. Invoke (Suc i) \<in> set (trace s') \<longrightarrow>
          Invoke i \<in> set (trace s') \<and> Out (StepSuccessful (Suc i)) \<in> set (trace s')"
  proof (intro allI impI)
    fix i assume "Invoke (Suc i) \<in> set (trace s')"
    with inv tail_inv have "i < k" by fastforce
    with inv suc show "Invoke i \<in> set (trace s') \<and> Out (StepSuccessful (Suc i)) \<in> set (trace s')"
      by blast
  qed
  have C: "\<forall>j b i. Out (StepFailed (Suc j) b) \<in> set (trace s') \<and> Invoke i \<in> set (trace s') \<longrightarrow> i \<le> j"
  proof (intro allI impI)
    fix j b i
    assume a: "Out (StepFailed (Suc j) b) \<in> set (trace s') \<and> Invoke i \<in> set (trace s')"
    with fl tail_fl have "j = k" by blast
    moreover from a inv tail_inv have "i \<le> k" by fastforce
    ultimately show "i \<le> j" by simp
  qed
  have I: "\<forall>w' r s3.
          questionAsync cl confirmPrompt (world s) = (''Y'', w')
        \<and> run st n (afterConsent i st w' s) = (r, s3) \<longrightarrow>
          run_steps cl n i (st # rest) s =
            (case r of
               Returned successful \<Rightarrow>
                 if successful
                 then run_steps cl n (i + 1) rest (output_text (StepSuccessful (i + 1)) s3)
                 else (Returned (Some RetFalse), output_text (StepFailed (i + 1) None) s3)
             | Thrown e \<Rightarrow>
                 (Returned (Some RetFalse), output_text (StepFailed (i + 1) (errorDetail e)) s3)
             | OutOfFuel \<Rightarrow> (OutOfFuel, s3))"
    by (rule run_steps_consent)
  from k sq cs have S: "\<exists>k tail. k \<le> 6
        \<and> sequencing (trace s') = concat (map goodRound [0..<k]) @ tail
        \<and> (tail = []
           \<or> (k < 6 \<and> (\<exists>a. a \<noteq> ''Y'' \<and> tail = [Input confirmPrompt a]) \<and> out = Returned RetUndefined)
           \<or> (k < 6 \<and> (\<exists>b. tail = [Input confirmPrompt ''Y'', Invoke k, Out (StepFailed (k + 1) b)])
                \<and> out = Returned RetFalse)
           \<or> (k < 6 \<and> tail = [Input confirmPrompt ''Y'', Invoke k] \<and> out = OutOfFuel))"
    by blast
  from I S A D B C show ?thesis by (intro conjI)
qed

theorem handler_step_sequencing_witness:
  "questionAsync scripted confirmPrompt (world (start (no_script\<lparr>answers := [''Y'']\<rparr>))) = (''Y'', no_script)
   \<and> run (steps scripted ctx_no_annotations ! 2) 2
        (afterConsent 2 (steps scripted ctx_no_annotations ! 2) no_script
           (start (no_script\<lparr>answers := [''Y'']\<rparr>)))
      = (Thrown TypeError,
         afterConsent 2 (steps scripted ctx_no_annotations ! 2) no_script
           (start (no_script\<lparr>answers := [''Y'']\<rparr>)))
   \<and> run_steps scripted 2 2 [steps scripted ctx_no_annotations ! 2] (start (no_script\<lparr>answers := [''Y'']\<rparr>))
      = (Returned (Some RetFalse),
         output_text (StepFailed 3 None)
           (afterConsent 2 (steps scripted ctx_no_annotations ! 2) no_script
              (start (no_script\<lparr>answers := [''Y'']\<rparr>))))
   \<and> fst run_job_fails = Returned RetFalse
   \<and> sequencing (trace (snd run_job_fails)) =
       [Input confirmPrompt ''Y'', Invoke 0, Out (StepSuccessful 1),
        Input confirmPrompt ''Y'', Invoke 1, Out (StepSuccessful 2),
        Input confirmPrompt ''Y'', Invoke 2, Out (StepSuccessful 3),
        Input confirmPrompt ''Y'', Invoke 3, Out (StepSuccessful 4),
        Input confirmPrompt ''Y'', Invoke 4, Out (StepFailed 5 None)]
   \<and> length (filter (\<lambda>e. e = Invoke 4) (trace (snd run_job_fails))) \<le> 1
   \<and> Invoke 4 \<in> set (trace (snd run_job_fails))
   \<and> Invoke 3 \<in> set (trace (snd run_job_fails))
   \<and> Out (StepSuccessful 4) \<in> set (trace (snd run_job_fails))
   \<and> Out (StepFailed 5 None) \<in> set (trace (snd run_job_fails))
   \<and> Invoke 5 \<notin> set (trace (snd run_job_fails))"
proof -
  let ?s = "start (no_script\<lparr>answers := [''Y'']\<rparr>)"
  let ?st = "steps scripted ctx_no_annotations ! 2"
  have q: "questionAsync scripted confirmPrompt (world ?s) = (''Y'', no_script)"
    by (simp add: scripted_def start_def no_script_def)
  have st: "run ?st = step3_run scripted ctx_no_annotations"
    by (simp add: steps_def)
  have act: "run ?st 2 (afterConsent 2 ?st no_script ?s) = (Thrown TypeError, afterConsent 2 ?st no_script ?s)"
    by (simp only: st)
      (simp add: step3_run_def replacementClaim_def ctx_no_annotations_def no_annotations_def
        metaAnnotations_def)
  have H: "handler scripted 2 ''default'' ''fast'' ''data'' ''r1'' script_job_fails =
      (fst run_job_fails, snd run_job_fails)"
    by (simp add: run_job_fails_def)
  note inst = handler_step_sequencing [OF H, where s = ?s and st = ?st and i = 2 and rest = "[]"]
  from job_fails_run have out: "fst run_job_fails = Returned RetFalse"
    and sq: "sequencing (trace (snd run_job_fails)) =
       [Input confirmPrompt ''Y'', Invoke 0, Out (StepSuccessful 1),
        Input confirmPrompt ''Y'', Invoke 1, Out (StepSuccessful 2),
        Input confirmPrompt ''Y'', Invoke 2, Out (StepSuccessful 3),
        Input confirmPrompt ''Y'', Invoke 3, Out (StepSuccessful 4),
        Input confirmPrompt ''Y'', Invoke 4, Out (StepFailed 5 None)]"
    by (simp_all only: run_job_fails_def)
  have i4: "Invoke 4 \<in> set (trace (snd run_job_fails))"
    using in_sequencing [of "Invoke 4" "trace (snd run_job_fails)"]
    by (simp add: sq isSequencing_def)
  have f5: "Out (StepFailed 5 None) \<in> set (trace (snd run_job_fails))"
    using in_sequencing [of "Out (StepFailed 5 None)" "trace (snd run_job_fails)"]
    by (simp add: sq isSequencing_def)
  from inst q act have one:
    "run_steps scripted 2 2 [?st] ?s =
      (Returned (Some RetFalse), output_text (StepFailed 3 None) (afterConsent 2 ?st no_script ?s))"
    by (simp add: errorDetail_def del: run_steps.simps)
  from inst have cnt: "length (filter (\<lambda>e. e = Invoke 4) (trace (snd run_job_fails))) \<le> 1"
    by blast
  from inst have "Invoke (Suc 3) \<in> set (trace (snd run_job_fails)) \<longrightarrow>
      Invoke 3 \<in> set (trace (snd run_job_fails))
      \<and> Out (StepSuccessful (Suc 3)) \<in> set (trace (snd run_job_fails))"
    by blast
  with i4 have i3: "Invoke 3 \<in> set (trace (snd run_job_fails))"
    and s4: "Out (StepSuccessful 4) \<in> set (trace (snd run_job_fails))"
    by simp_all
  from inst have "Out (StepFailed (Suc 4) None) \<in> set (trace (snd run_job_fails))
      \<and> Invoke 5 \<in> set (trace (snd run_job_fails)) \<longrightarrow> (5::nat) \<le> 4"
    by blast
  with f5 have i5: "Invoke 5 \<notin> set (trace (snd run_job_fails))" by auto
  from q act one out sq cnt i4 i3 s4 f5 i5 show ?thesis by (intro conjI)
qed

lemma run_steps_declined:
  assumes "questionAsync cl confirmPrompt (world s) = (a, w')" and "a \<noteq> ''Y''"
  shows "run_steps cl n i (st # rest) s =
     (Returned (Some RetUndefined),
      s\<lparr>world := w',
        trace := trace s @ [Out (ReadyToRun (i + 1) (description st)), Input confirmPrompt a]\<rparr>)"
  using assms(2) by (simp add: input_line_eq [OF assms(1)])

text \<open>
  Claim C4.  At every step \<open>i\<close> of the loop, when the prompt is answered with anything but
  the exact token \<open>Y\<close>, the handler returns at once: after the announcement of the step
  and the prompt with its answer nothing is added to the trace, so the action of step
  \<open>i\<close> is not invoked and no request is sent.  The action of step \<open>i\<close> is invoked only
  when the answer is \<open>Y\<close>.  In a whole run of the handler a declined prompt is the last
  event, and the handler's result is that of \<open>return;\<close>.
\<close>

theorem confirmation_gate:
  "(\<forall>a w'. questionAsync cl confirmPrompt (world s) = (a, w') \<and> a \<noteq> ''Y'' \<longrightarrow>
       run_steps cl n i (st # rest) s =
         (Returned (Some RetUndefined),
          s\<lparr>world := w',
            trace := trace s @ [Out (ReadyToRun (i + 1) (description st)), Input confirmPrompt a]\<rparr>))
   \<and> (\<forall>a w'. questionAsync cl confirmPrompt (world s) = (a, w')
         \<and> Invoke i \<in> set (newEvents s (snd (run_steps cl n i (st # rest) s))) \<longrightarrow> a = ''Y'')
   \<and> (\<forall>out s' pre a post.
         handler cl n ns sc nm rid w = (out, s')
       \<and> trace s' = pre @ Input confirmPrompt a # post \<and> a \<noteq> ''Y'' \<longrightarrow>
         post = [] \<and> out = Returned RetUndefined)"
proof (intro conjI allI impI)
  fix a w'
  assume "questionAsync cl confirmPrompt (world s) = (a, w') \<and> a \<noteq> ''Y''"
  then have q: "questionAsync cl confirmPrompt (world s) = (a, w')" and na: "a \<noteq> ''Y''"
    by simp_all
  from run_steps_declined [OF q na]
  show "run_steps cl n i (st # rest) s =
         (Returned (Some RetUndefined),
          s\<lparr>world := w',
            trace := trace s @ [Out (ReadyToRun (i + 1) (description st)), Input confirmPrompt a]\<rparr>)" .
next
  fix a w'
  assume h: "questionAsync cl confirmPrompt (world s) = (a, w')
         \<and> Invoke i \<in> set (newEvents s (snd (run_steps cl n i (st # rest) s)))"
  show "a = ''Y''"
  proof (rule ccontr)
    assume na: "a \<noteq> ''Y''"
    from h have q: "questionAsync cl confirmPrompt (world s) = (a, w')" by simp
    have "newEvents s (snd (run_steps cl n i (st # rest) s)) =
        [Out (ReadyToRun (i + 1) (description st)), Input confirmPrompt a]"
      unfolding run_steps_declined [OF q na] by (simp add: newEvents_def)
    with h show False by (simp del: run_steps.simps)
  qed
next
  fix out s' pre a post
  assume h: "handler cl n ns sc nm rid w = (out, s')
       \<and> trace s' = pre @ Input confirmPrompt a # post \<and> a \<noteq> ''Y''"
  then have H: "handler cl n ns sc nm rid w = (out, s')"
    and tr: "trace s' = pre @ Input confirmPrompt a # post" and na: "a \<noteq> ''Y''"
    by simp_all
  from handler_shape [OF H] obtain k tail where rs: "run_shape out (trace s') k tail"
    and st: "stops_at declined (trace s')" by blast
  from na have d: "declined (Input confirmPrompt a)" by (simp add: declined_def)
  from st have "trace s' = pre @ Input confirmPrompt a # post \<and> declined (Input confirmPrompt a)
      \<longrightarrow> post = []"
    unfolding stops_at_def by (elim allE)
  with tr d show "post = []" by (elim impE) (rule conjI)
  from rs have sq: "sequencing (trace s') = concat (map goodRound [0..<k]) @ tail"
    and cs: "tail = []
           \<or> (k < 6 \<and> (\<exists>a. a \<noteq> ''Y'' \<and> tail = [Input confirmPrompt a]) \<and> out = Returned RetUndefined)
           \<or> (k < 6 \<and> (\<exists>b. tail = [Input confirmPrompt ''Y'', Invoke k, Out (StepFailed (k + 1) b)])
                \<and> out = Returned RetFalse)
           \<or> (k < 6 \<and> tail = [Input confirmPrompt ''Y'', Invoke k] \<and> out = OutOfFuel)"
    unfolding run_shape_def by blast+
  from tr have "Input confirmPrompt a \<in> set (trace s')" by simp
  with in_sequencing [of "Input confirmPrompt a" "trace s'"]
  have "Input confirmPrompt a \<in> set (concat (map goodRound [0..<k]) @ tail)"
    by (simp add: isSequencing_def sq del: set_concat)
  then have "Input confirmPrompt a \<in> set (concat (map goodRound [0..<k]))
      \<or> Input confirmPrompt a \<in> set tail"
    by (simp only: set_append Un_iff)
  with goodRounds_Input [of confirmPrompt a 0 k] na have mem: "Input confirmPrompt a \<in> set tail"
    by blast
  from cs show "out = Returned RetUndefined"
  proof (elim disjE conjE exE)
    assume "tail = []"
    with mem show ?thesis by simp
  next
    assume "out = Returned RetUndefined"
    then show ?thesis .
  next
    fix b assume "tail = [Input confirmPrompt ''Y'', Invoke k, Out (StepFailed (k + 1) b)]"
    with mem na show ?thesis by simp
  next
    assume "tail = [Input confirmPrompt ''Y'', Invoke k]"
    with mem na show ?thesis by simp
  qed
qed

theorem confirmation_gate_witness:
  "questionAsync scripted confirmPrompt (world (start (no_script\<lparr>answers := [''y'']\<rparr>))) = (''y'', no_script)
   \<and> ''y'' \<noteq> ''Y''
   \<and> run_steps scripted 2 2 (steps scripted ctx_data ! 2 # drop 3 (steps scripted ctx_data))
        (start (no_script\<lparr>answers := [''y'']\<rparr>))
      = (Returned (Some RetUndefined),
         \<lparr>world = no_script,
          trace = [Out (ReadyToRun 3 (description (steps scripted ctx_data ! 2))), Input confirmPrompt ''y''],
          pods = []\<rparr>)
   \<and> trace (snd run_declines) = butlast (trace (snd run_declines)) @ [Input confirmPrompt ''y'']
   \<and> fst run_declines = Returned RetUndefined"
proof -
  let ?s = "start (no_script\<lparr>answers := [''y'']\<rparr>)"
  have q: "questionAsync scripted confirmPrompt (world ?s) = (''y'', no_script)"
    by (simp add: scripted_def start_def no_script_def)
  have na: "''y'' \<noteq> ''Y''" by simp
  have H: "handler scripted 2 ''default'' ''fast'' ''data'' ''r1'' script_declines =
      (fst run_declines, snd run_declines)"
    by (simp add: run_declines_def)
  from declines_run have tr: "trace (snd run_declines) =
      butlast (trace (snd run_declines)) @ [Input confirmPrompt ''y'']"
    by (metis append_butlast_last_id)
  note inst = confirmation_gate [where cl = scripted and s = ?s and n = 2 and i = 2
      and st = "steps scripted ctx_data ! 2" and rest = "drop 3 (steps scripted ctx_data)"
      and ns = "''default''" and sc = "''fast''" and nm = "''data''" and rid = "''r1''"
      and w = script_declines]
  from inst q na have "run_steps scripted 2 2 (steps scripted ctx_data ! 2 # drop 3 (steps scripted ctx_data)) ?s
      = (Returned (Some RetUndefined),
         ?s\<lparr>world := no_script,
           trace := trace ?s @ [Out (ReadyToRun (2 + 1) (description (steps scripted ctx_data ! 2))),
             Input confirmPrompt ''y'']\<rparr>)"
    by blast
  then have one: "run_steps scripted 2 2 (steps scripted ctx_data ! 2 # drop 3 (steps scripted ctx_data)) ?s
      = (Returned (Some RetUndefined),
         \<lparr>world = no_script,
          trace = [Out (ReadyToRun 3 (description (steps scripted ctx_data ! 2))), Input confirmPrompt ''y''],
          pods = []\<rparr>)"
    by (simp add: start_def del: run_steps.simps)
  from inst H tr na have two: "fst run_declines = Returned RetUndefined"
    by blast
  from q na one tr two show ?thesis by (intro conjI)
qed

text \<open>
  Claim C8, as the code has it.  When the claim is read, the volumes are listed and none
  of them is Bound with a claim reference to the claim, and the pods are listed, the
  handler returns without building the plan: the trace is the three discovery requests
  between the texts \<open>Gathering info...\<close> and \<open>Done!\<close> with a blank line; no step is
  listed, prompted or run, no request changes the cluster, and nothing else is written.
\<close>

theorem handler_without_bound_volume:
  assumes "readNamespacedPersistentVolumeClaim cl (Some nm) (Some ns) w = (Inr pvc, w1)"
    and "listPersistentVolume cl w1 = (Inr pvs, w2)"
    and "\<forall>pv\<in>set pvs. \<not> (isBound pv \<and> refersTo pv pvc)"
    and "listNamespacedPod cl ns w2 = (Inr items, w3)"
  shows "handler cl n ns sc nm rid w =
    (Returned RetUndefined,
     \<lparr>world = w3,
      trace =
        [Out GatheringInfo,
         Call (ReadNamespacedPersistentVolumeClaim (Some nm) (Some ns)) None,
         Call ListPersistentVolume None,
         Call (ListNamespacedPod ns) None,
         Out Done, Out Newline],
      pods = mountingPods items nm\<rparr>)"
proof -
  from assms(3) have "findPV pvs pvc = None"
    by (induction pvs) simp_all
  with assms(1,2,4) show ?thesis
    by (simp add: handler_def getPVForPVC_def getPodsMountingPVC_def mountingPods_def api_def
        failure_def output_text_def emit_def)
qed

theorem handler_without_bound_volume_witness:
  "readNamespacedPersistentVolumeClaim scripted (Some ''data'') (Some ''default'') script_unbound
     = (Inr claim_data, script_unbound\<lparr>claim_reads := []\<rparr>)
   \<and> listPersistentVolume scripted (script_unbound\<lparr>claim_reads := []\<rparr>)
     = (Inr [other_volume], script_unbound\<lparr>claim_reads := []\<rparr>)
   \<and> isBound other_volume \<and> \<not> refersTo other_volume claim_data
   \<and> listNamespacedPod scripted ''default'' (script_unbound\<lparr>claim_reads := []\<rparr>)
     = (Inr [], script_unbound\<lparr>claim_reads := []\<rparr>)
   \<and> run_unbound =
      (Returned RetUndefined,
       \<lparr>world = script_unbound\<lparr>claim_reads := []\<rparr>,
        trace =
          [Out GatheringInfo,
           Call (ReadNamespacedPersistentVolumeClaim (Some ''data'') (Some ''default'')) None,
           Call ListPersistentVolume None,
           Call (ListNamespacedPod ''default'') None,
           Out Done, Out Newline],
        pods = []\<rparr>)"
proof -
  have none: "\<forall>pv\<in>set [other_volume]. \<not> (isBound pv \<and> refersTo pv claim_data)"
    by (simp add: unbound_facts)
  from handler_without_bound_volume [OF unbound_facts(1) unbound_facts(2) none unbound_facts(3),
      of 2 "''fast''" "''r1''"]
  have "run_unbound =
      (Returned RetUndefined,
       \<lparr>world = script_unbound\<lparr>claim_reads := []\<rparr>,
        trace =
          [Out GatheringInfo,
           Call (ReadNamespacedPersistentVolumeClaim (Some ''data'') (Some ''default'')) None,
           Call ListPersistentVolume None,
           Call (ListNamespacedPod ''default'') None,
           Out Done, Out Newline],
        pods = []\<rparr>)"
    by (simp add: run_unbound_def mountingPods_def)
  with unbound_facts show ?thesis by (intro conjI)
qed

text \<open>
  Claim C8 as stated fails: with a single volume that is bound to another claim, the
  only texts of the run are \<open>Gathering info...\<close>, \<open>Done!\<close> and a blank line; no failure
  is reported.
\<close>

theorem handler_unbound_counterexample:
  "findPV (volume_list script_unbound) claim_data = None
   \<and> fst run_unbound = Returned RetUndefined
   \<and> outputs (trace (snd run_unbound)) = [GatheringInfo, Done, Newline]"
  by (simp add: run_unbound_def script_unbound_def other_volume_def handler_defs run_defs loop_defs)


end
